theory Spec2Isabelle
  imports Main
begin

section \<open>JavaScript strings\<close>

text \<open>
  A JavaScript string is a sequence of UTF-16 code units; a code unit is modelled as a
  natural number.  \<open>js\<close> turns an ASCII literal into such a sequence.
\<close>

type_synonym jschar = nat
type_synonym jsstring = "nat list"

definition js :: "string \<Rightarrow> jsstring" where
  "js s = map of_char s"

text \<open>
  What the programs below take from their JavaScript host and what is not fixed by the
  repository: the Unicode lower-casing of code units outside ASCII (which may depend on
  the neighbours of the code unit and may yield several code units), what
  \<open>Date.parse\<close> makes of a string outside the ECMAScript date-time format
  (implementation-defined; \<open>None\<close> is \<open>NaN\<close>), and the offset of local time from
  UTC in milliseconds (at a UTC time when the flag is \<open>True\<close>, at a local time otherwise).
\<close>

record host =
  lowerNonAscii :: "jsstring \<Rightarrow> nat \<Rightarrow> jsstring"
  dateFallback :: "jsstring \<Rightarrow> int option"
  localTZA :: "int \<Rightarrow> bool \<Rightarrow> int"

text \<open>The class \<open>\s\<close> of regular expressions, which is also what \<open>trim\<close> removes:
  ECMAScript's WhiteSpace and LineTerminator code points.\<close>

definition isSpace :: "jschar \<Rightarrow> bool" where
  "isSpace c \<longleftrightarrow>
     c \<in> {9, 10, 11, 12, 13, 32, 160, 5760, 8232, 8233, 8239, 8287, 12288, 65279}
     \<or> (8192 \<le> c \<and> c \<le> 8202)"

definition isDigit :: "jschar \<Rightarrow> bool" where
  "isDigit c \<longleftrightarrow> 48 \<le> c \<and> c \<le> 57"

definition isLowerAz :: "jschar \<Rightarrow> bool" where
  "isLowerAz c \<longleftrightarrow> 97 \<le> c \<and> c \<le> 122"

definition isUpperAz :: "jschar \<Rightarrow> bool" where
  "isUpperAz c \<longleftrightarrow> 65 \<le> c \<and> c \<le> 90"

definition lit :: "char \<Rightarrow> jschar \<Rightarrow> bool" where
  "lit a c \<longleftrightarrow> c = of_char a"

definition inRange :: "char \<Rightarrow> char \<Rightarrow> jschar \<Rightarrow> bool" where
  "inRange a b c \<longleftrightarrow> of_char a \<le> c \<and> c \<le> of_char b"

text \<open>\<open>String.prototype.trim\<close>.\<close>

definition trim :: "jsstring \<Rightarrow> jsstring" where
  "trim s = rev (dropWhile isSpace (rev (dropWhile isSpace s)))"

text \<open>\<open>String.prototype.toLowerCase\<close>: \<open>A\<close> to \<open>Z\<close> become \<open>a\<close> to \<open>z\<close>, the other
  ASCII code units stay, and the host's Unicode tables decide the rest.\<close>

definition lowerAt :: "host \<Rightarrow> jsstring \<Rightarrow> nat \<Rightarrow> jsstring" where
  "lowerAt h s i =
     (let c = s ! i in
      if isUpperAz c then [c + 32] else if c < 128 then [c] else lowerNonAscii h s i)"

definition toLowerCase :: "host \<Rightarrow> jsstring \<Rightarrow> jsstring" where
  "toLowerCase h s = concat (map (lowerAt h s) [0..<length s])"

text \<open>\<open>String.prototype.padStart(n, "0")\<close>.\<close>

definition padStart0 :: "nat \<Rightarrow> jsstring \<Rightarrow> jsstring" where
  "padStart0 n s = replicate (n - length s) 48 @ s"

section \<open>Regular expressions\<close>

text \<open>
  The fragment of ECMAScript regular expressions the repository uses: classes of one code
  unit, concatenation, alternation, the quantifiers \<open>?\<close>, \<open>*\<close> and \<open>+\<close> on a class,
  capture groups and the anchors \<open>^\<close> and \<open>$\<close> (without the \<open>m\<close> flag).  A match state is
  the index reached, the input left and the captures.  \<open>run\<close> lists the states a
  backtracking matcher reaches, in the order it tries them: quantifiers are greedy and the
  left alternative comes first, so the matcher's answer is the head of the list.
\<close>

datatype regex =
    Class "jschar \<Rightarrow> bool"
  | Cat regex regex
  | Or regex regex
  | Opt "jschar \<Rightarrow> bool"
  | Star "jschar \<Rightarrow> bool"
  | Plus "jschar \<Rightarrow> bool"
  | Group nat regex
  | Bol
  | Eol

type_synonym captures = "nat \<rightharpoonup> jsstring"
type_synonym mstate = "nat \<times> jsstring \<times> captures"

fun many :: "(jschar \<Rightarrow> bool) \<Rightarrow> nat \<Rightarrow> jsstring \<Rightarrow> captures \<Rightarrow> mstate list" where
  "many p i [] g = [(i, [], g)]"
| "many p i (c # cs) g = (if p c then many p (Suc i) cs g @ [(i, c # cs, g)] else [(i, c # cs, g)])"

fun run :: "regex \<Rightarrow> mstate \<Rightarrow> mstate list" where
  "run (Class p) (i, s, g) = (case s of [] \<Rightarrow> [] | c # cs \<Rightarrow> if p c then [(Suc i, cs, g)] else [])"
| "run (Cat a b) st = concat (map (run b) (run a st))"
| "run (Or a b) st = run a st @ run b st"
| "run (Opt p) (i, s, g) =
     (case s of [] \<Rightarrow> [(i, s, g)] | c # cs \<Rightarrow> if p c then [(Suc i, cs, g), (i, s, g)] else [(i, s, g)])"
| "run (Star p) (i, s, g) = many p i s g"
| "run (Plus p) (i, s, g) = (case s of [] \<Rightarrow> [] | c # cs \<Rightarrow> if p c then many p (Suc i) cs g else [])"
| "run (Group n r) (i, s, g) = map (\<lambda>(j, s', g'). (j, s', g'(n \<mapsto> take (j - i) s))) (run r (i, s, g))"
| "run Bol (i, s, g) = (if i = 0 then [(i, s, g)] else [])"
| "run Eol (i, s, g) = (if s = [] then [(i, s, g)] else [])"

text \<open>\<open>RegExp.prototype.exec\<close> without the \<open>g\<close> flag: the first start index with a
  match, and the captures of the first match there.\<close>

fun search :: "regex \<Rightarrow> nat \<Rightarrow> jsstring \<Rightarrow> captures option" where
  "search r k s =
     (case run r (k, s, Map.empty) of
        (j, s', g) # _ \<Rightarrow> Some g
      | [] \<Rightarrow> (case s of [] \<Rightarrow> None | c # cs \<Rightarrow> search r (Suc k) cs))"

definition exec :: "regex \<Rightarrow> jsstring \<Rightarrow> captures option" where
  "exec r s = search r 0 s"

definition test :: "regex \<Rightarrow> jsstring \<Rightarrow> bool" where
  "test r s \<longleftrightarrow> exec r s \<noteq> None"

text \<open>\<open>String.prototype.replace\<close> with a regular expression that has the \<open>g\<close> flag and a
  replacement without \<open>$\<close>: every match, found from left to right, is replaced; after an
  empty match the next code unit is copied.\<close>

function replaceAll :: "regex \<Rightarrow> jsstring \<Rightarrow> nat \<Rightarrow> jsstring \<Rightarrow> jsstring" where
  "replaceAll r rep i s =
     (case run r (i, s, Map.empty) of
        [] \<Rightarrow> (case s of [] \<Rightarrow> [] | c # cs \<Rightarrow> c # replaceAll r rep (Suc i) cs)
      | (j, s', g) # _ \<Rightarrow>
          if length s' < length s then rep @ replaceAll r rep j s'
          else (case s of [] \<Rightarrow> rep | c # cs \<Rightarrow> rep @ c # replaceAll r rep (Suc i) cs))"
  by pat_completeness auto
termination
  by (relation "measure (\<lambda>(r, rep, i, s). length s)") auto

section \<open>The slug generator\<close>

text \<open>The three expressions of \<open>slugify\<close>: \<open>/[^a-z0-9\s-]/g\<close>, \<open>/\s+/g\<close> and \<open>/-+/g\<close>.\<close>

definition isHyphen :: "jschar \<Rightarrow> bool" where
  "isHyphen c \<longleftrightarrow> c = 45"

definition notSlugInput :: "jschar \<Rightarrow> bool" where
  "notSlugInput c \<longleftrightarrow> \<not> (isLowerAz c \<or> isDigit c \<or> isSpace c \<or> isHyphen c)"

definition slugify :: "host \<Rightarrow> jsstring \<Rightarrow> jsstring" where
  "slugify h input =
     replaceAll (Plus isHyphen) (js ''-'') 0
       (replaceAll (Plus isSpace) (js ''-'') 0
         (replaceAll (Class notSlugInput) (js '''') 0
           (trim (toLowerCase h input))))"

text \<open>
  The same in the words of the specification: strip every code unit outside
  \<open>[a-z0-9\s-]\<close>, then replace every maximal run of a class by one hyphen.
\<close>

definition slugInput :: "jschar \<Rightarrow> bool" where
  "slugInput c \<longleftrightarrow> isLowerAz c \<or> isDigit c \<or> isSpace c \<or> isHyphen c"

definition slugChar :: "jschar \<Rightarrow> bool" where
  "slugChar c \<longleftrightarrow> isLowerAz c \<or> isDigit c \<or> isHyphen c"

function collapseRuns :: "(jschar \<Rightarrow> bool) \<Rightarrow> jsstring \<Rightarrow> jsstring" where
  "collapseRuns p [] = []"
| "collapseRuns p (c # cs) =
     (if p c then 45 # collapseRuns p (dropWhile p cs) else c # collapseRuns p cs)"
  by pat_completeness auto
termination
  by (relation "measure (\<lambda>(p, s). length s)") (auto simp: length_dropWhile_le le_imp_less_Suc)

fun hasDoubleHyphen :: "jsstring \<Rightarrow> bool" where
  "hasDoubleHyphen (a # b # cs) = (a = 45 \<and> b = 45 \<or> hasDoubleHyphen (b # cs))"
| "hasDoubleHyphen _ = False"

section \<open>Dates\<close>

text \<open>
  The part of ECMAScript's \<open>Date\<close> the normalizers use, after ECMA-262 (Time Values and
  Time Range, Date Time String Format).  A time value is a number of milliseconds since
  1970-01-01T00:00:00Z; \<open>None\<close> is \<open>NaN\<close>, the time value of an invalid date.
\<close>

definition msPerDay :: int where
  "msPerDay = 86400000"

definition Day :: "int \<Rightarrow> int" where
  "Day t = t div msPerDay"

definition TimeWithinDay :: "int \<Rightarrow> int" where
  "TimeWithinDay t = t mod msPerDay"

definition InLeapYear :: "int \<Rightarrow> bool" where
  "InLeapYear y \<longleftrightarrow> y mod 4 = 0 \<and> (y mod 100 \<noteq> 0 \<or> y mod 400 = 0)"

definition DayFromYear :: "int \<Rightarrow> int" where
  "DayFromYear y = 365 * (y - 1970) + (y - 1969) div 4 - (y - 1901) div 100 + (y - 1601) div 400"

definition daysBeforeMonth :: "bool \<Rightarrow> int \<Rightarrow> int" where
  "daysBeforeMonth leap m =
     [0, 31, 59, 90, 120, 151, 181, 212, 243, 273, 304, 334] ! nat (m - 1)
       + (if leap \<and> 2 < m then 1 else 0)"

definition daysInMonth :: "int \<Rightarrow> int \<Rightarrow> int" where
  "daysInMonth y m =
     (if m = 2 then (if InLeapYear y then 29 else 28)
      else if m \<in> {4, 6, 9, 11} then 30 else 31)"

text \<open>\<open>MakeDay\<close> for a month from 1 to 12, \<open>MakeTime\<close> and \<open>MakeDate\<close>.\<close>

definition MakeDay :: "int \<Rightarrow> int \<Rightarrow> int \<Rightarrow> int" where
  "MakeDay y m d = DayFromYear y + daysBeforeMonth (InLeapYear y) m + d - 1"

definition MakeTime :: "int \<Rightarrow> int \<Rightarrow> int \<Rightarrow> int \<Rightarrow> int" where
  "MakeTime hh mm ss ms = hh * 3600000 + mm * 60000 + ss * 1000 + ms"

definition MakeDate :: "int \<Rightarrow> int \<Rightarrow> int" where
  "MakeDate day time = day * msPerDay + time"

definition TimeClip :: "int \<Rightarrow> int option" where
  "TimeClip t = (if 8640000000000000 < \<bar>t\<bar> then None else Some t)"

definition LocalTime :: "host \<Rightarrow> int \<Rightarrow> int" where
  "LocalTime h t = t + localTZA h t True"

definition UTC :: "host \<Rightarrow> int \<Rightarrow> int" where
  "UTC h t = t - localTZA h t False"

definition HourFromTime :: "int \<Rightarrow> int" where
  "HourFromTime t = (t div 3600000) mod 24"

definition MinFromTime :: "int \<Rightarrow> int" where
  "MinFromTime t = (t div 60000) mod 60"

definition SecFromTime :: "int \<Rightarrow> int" where
  "SecFromTime t = (t div 1000) mod 60"

definition msFromTime :: "int \<Rightarrow> int" where
  "msFromTime t = t mod 1000"

text \<open>
  The calendar date of a day number: year, month from 1 to 12, day of the month
  (\<open>YearFromTime\<close>, \<open>MonthFromTime + 1\<close>, \<open>DateFromTime\<close>), computed over 400-year eras
  that start on a first of March: the day within the era, its century, the day within the
  four-year cycle of that century, the year within the cycle and within the era, the day
  within that year, and its month counted from March.
\<close>

definition dayOfEra :: "int \<Rightarrow> int" where
  "dayOfEra d = (d + 719468) mod 146097"

definition centuryOfEra :: "int \<Rightarrow> int" where
  "centuryOfEra doe = min 3 (doe div 36524)"

definition dayOfCycle :: "int \<Rightarrow> int" where
  "dayOfCycle doe = (doe - centuryOfEra doe * 36524) mod 1461"

definition yearOfCycle :: "int \<Rightarrow> int" where
  "yearOfCycle doe = min 3 (dayOfCycle doe div 365)"

definition yearOfEra :: "int \<Rightarrow> int" where
  "yearOfEra doe =
     centuryOfEra doe * 100 + (doe - centuryOfEra doe * 36524) div 1461 * 4 + yearOfCycle doe"

definition dayOfYear :: "int \<Rightarrow> int" where
  "dayOfYear doe = dayOfCycle doe - yearOfCycle doe * 365"

definition monthOfYear :: "int \<Rightarrow> int" where
  "monthOfYear doy = (5 * doy + 2) div 153"

definition civilMonth :: "int \<Rightarrow> int" where
  "civilMonth d =
     (if monthOfYear (dayOfYear (dayOfEra d)) < 10 then monthOfYear (dayOfYear (dayOfEra d)) + 3
      else monthOfYear (dayOfYear (dayOfEra d)) - 9)"

definition civilDay :: "int \<Rightarrow> int" where
  "civilDay d =
     dayOfYear (dayOfEra d) - (153 * monthOfYear (dayOfYear (dayOfEra d)) + 2) div 5 + 1"

definition civilYear :: "int \<Rightarrow> int" where
  "civilYear d =
     yearOfEra (dayOfEra d) + (d + 719468) div 146097 * 400 + (if civilMonth d \<le> 2 then 1 else 0)"

definition YearFromTime :: "int \<Rightarrow> int" where
  "YearFromTime t = civilYear (Day t)"

definition MonthFromTime1 :: "int \<Rightarrow> int" where
  "MonthFromTime1 t = civilMonth (Day t)"

definition DateFromTime :: "int \<Rightarrow> int" where
  "DateFromTime t = civilDay (Day t)"

text \<open>Decimal numerals: \<open>String(n)\<close> for a natural number, and reading a run of digits.\<close>

fun showNat :: "nat \<Rightarrow> jsstring" where
  "showNat n = (if n < 10 then [48 + n] else showNat (n div 10) @ [48 + n mod 10])"

definition readNat :: "jsstring \<Rightarrow> nat" where
  "readNat ds = foldl (\<lambda>a c. 10 * a + (c - 48)) 0 ds"

definition digits :: "nat \<Rightarrow> jsstring \<Rightarrow> (int \<times> jsstring) option" where
  "digits n s =
     (if n \<le> length s \<and> list_all isDigit (take n s)
      then Some (int (readNat (take n s)), drop n s) else None)"

text \<open>
  The Date Time String Format \<open>YYYY-MM-DDTHH:mm:ss.sssZ\<close>: a year of four digits, or of
  a sign and six digits; then optionally the month, and optionally the day; then optionally
  \<open>T\<close>, hours and minutes, optionally seconds, optionally milliseconds, and optionally
  \<open>Z\<close> or a signed offset \<open>HH:mm\<close>.  Each parser returns what it read and the input left.
\<close>

definition parseYear :: "jsstring \<Rightarrow> (int \<times> jsstring) option" where
  "parseYear s =
     (case s of
        [] \<Rightarrow> None
      | c # r \<Rightarrow>
          if c = 43 then digits 6 r
          else if c = 45 then
            (case digits 6 r of
               None \<Rightarrow> None
             | Some (y, r') \<Rightarrow> if y = 0 then None else Some (- y, r'))
          else digits 4 s)"

definition parseField :: "jschar \<Rightarrow> nat \<Rightarrow> jsstring \<Rightarrow> (int \<times> jsstring) option" where
  "parseField sep n s = (case s of [] \<Rightarrow> None | c # r \<Rightarrow> if c = sep then digits n r else None)"

definition parseMonthDay :: "jsstring \<Rightarrow> int \<times> int \<times> jsstring" where
  "parseMonthDay s =
     (case parseField 45 2 s of
        None \<Rightarrow> (1, 1, s)
      | Some (m, r) \<Rightarrow>
          (case parseField 45 2 r of
             None \<Rightarrow> (m, 1, r)
           | Some (d, r') \<Rightarrow> (m, d, r')))"

definition parseSeconds :: "jsstring \<Rightarrow> int \<times> int \<times> jsstring" where
  "parseSeconds s =
     (case parseField 58 2 s of
        None \<Rightarrow> (0, 0, s)
      | Some (ss, r) \<Rightarrow>
          (case parseField 46 3 r of
             None \<Rightarrow> (ss, 0, r)
           | Some (ms, r') \<Rightarrow> (ss, ms, r')))"

text \<open>The offset in minutes: \<open>Some None\<close> when there is none, \<open>None\<close> when what is left is
  not an offset.\<close>

definition parseOffset :: "jsstring \<Rightarrow> int option option" where
  "parseOffset s =
     (case s of
        [] \<Rightarrow> Some None
      | c # r \<Rightarrow>
          if c = 90 then (if r = [] then Some (Some 0) else None)
          else if c = 43 \<or> c = 45 then
            (case digits 2 r of
               None \<Rightarrow> None
             | Some (oh, r') \<Rightarrow>
                 (case parseField 58 2 r' of
                    None \<Rightarrow> None
                  | Some (om, r'') \<Rightarrow>
                      if r'' = [] \<and> oh < 24 \<and> om < 60
                      then Some (Some ((if c = 45 then - 1 else 1) * (oh * 60 + om)))
                      else None))
          else None)"

text \<open>
  A string of the format with every element in range gives its time value: a form without
  a time is UTC, a form with a time and no offset is local time.  \<open>None\<close> here means that
  the string is not an instance of the format with a date of the calendar; what
  \<open>Date.parse\<close> answers then is up to the implementation.
\<close>

definition isoParse :: "host \<Rightarrow> jsstring \<Rightarrow> int option" where
  "isoParse h s =
     (case parseYear s of
        None \<Rightarrow> None
      | Some (y, r) \<Rightarrow>
          (case parseMonthDay r of
             (m, d, r1) \<Rightarrow>
               if \<not> (1 \<le> m \<and> m \<le> 12 \<and> 1 \<le> d \<and> d \<le> daysInMonth y m) then None
               else if r1 = [] then Some (MakeDate (MakeDay y m d) 0)
               else
                 (case parseField 84 2 r1 of
                    None \<Rightarrow> None
                  | Some (hh, r2) \<Rightarrow>
                      (case parseField 58 2 r2 of
                         None \<Rightarrow> None
                       | Some (mi, r3) \<Rightarrow>
                           (case parseSeconds r3 of
                              (ss, ms, r4) \<Rightarrow>
                                (case parseOffset r4 of
                                   None \<Rightarrow> None
                                 | Some off \<Rightarrow>
                                     if \<not> (mi < 60 \<and> ss < 60
                                            \<and> (hh < 24 \<or> hh = 24 \<and> mi = 0 \<and> ss = 0 \<and> ms = 0))
                                     then None
                                     else
                                       (let t = MakeDate (MakeDay y m d) (MakeTime hh mi ss ms)
                                        in case off of
                                             None \<Rightarrow> Some (UTC h t)
                                           | Some k \<Rightarrow> Some (t - k * 60000))))))))"

text \<open>\<open>new Date(s)\<close> for a string, as its time value.\<close>

definition newDate :: "host \<Rightarrow> jsstring \<Rightarrow> int option" where
  "newDate h s =
     (case (case isoParse h s of Some t \<Rightarrow> Some t | None \<Rightarrow> dateFallback h s) of
        None \<Rightarrow> None
      | Some t \<Rightarrow> TimeClip t)"

definition getHours :: "host \<Rightarrow> int \<Rightarrow> int" where
  "getHours h t = HourFromTime (LocalTime h t)"

definition getMinutes :: "host \<Rightarrow> int \<Rightarrow> int" where
  "getMinutes h t = MinFromTime (LocalTime h t)"

text \<open>\<open>Date.prototype.toISOString\<close> of a valid date: the year with four digits from 0 to
  9999 and with a sign and six digits otherwise.\<close>

definition showYear :: "int \<Rightarrow> jsstring" where
  "showYear y =
     (if 0 \<le> y \<and> y \<le> 9999 then padStart0 4 (showNat (nat y))
      else (if y < 0 then 45 else 43) # padStart0 6 (showNat (nat \<bar>y\<bar>)))"

definition pad :: "nat \<Rightarrow> int \<Rightarrow> jsstring" where
  "pad n v = padStart0 n (showNat (nat v))"

definition toISOString :: "int \<Rightarrow> jsstring" where
  "toISOString t =
     showYear (YearFromTime t) @ js ''-'' @ pad 2 (MonthFromTime1 t) @ js ''-''
       @ pad 2 (DateFromTime t) @ js ''T'' @ pad 2 (HourFromTime t) @ js '':''
       @ pad 2 (MinFromTime t) @ js '':'' @ pad 2 (SecFromTime t) @ js ''.''
       @ pad 3 (msFromTime t) @ js ''Z''"

section \<open>Errors\<close>

text \<open>
  What a save can reject with: a plain \<open>Error\<close> with its message (thrown by the
  normalizers and by the hooks), the \<open>TypeError\<close> of a property read on \<open>undefined\<close>,
  Mongoose's \<open>ValidationError\<close> with the failing paths and their messages, the store's
  duplicate-key error of a unique index, and Mongoose's \<open>DocumentNotFoundError\<close>.
\<close>

datatype error =
    Error string
  | TypeError
  | ValidationError "(string \<times> string) list"
  | DuplicateKey string
  | DocumentNotFound

section \<open>The temporal normalizer\<close>

text \<open>\<open>/^([01]?\d|2[0-3]):([0-5]\d)$/\<close>\<close>

definition hhmm24 :: regex where
  "hhmm24 =
     Cat Bol
    (Cat (Group 1 (Or (Cat (Opt (inRange CHR ''0'' CHR ''1'')) (Class isDigit))
                      (Cat (Class (lit CHR ''2'')) (Class (inRange CHR ''0'' CHR ''3'')))))
    (Cat (Class (lit CHR '':''))
    (Cat (Group 2 (Cat (Class (inRange CHR ''0'' CHR ''5'')) (Class isDigit)))
     Eol)))"

text \<open>
  \<open>/^(1[0-2]|0?[1-9]):([0-5]\d)\s*(am|pm)$/i\<close>.  Under the \<open>i\<close> flag a letter of the
  pattern matches the code units with its canonical form; for an ASCII letter these are
  its two cases, since no code unit outside ASCII is canonicalized into ASCII.
\<close>

definition litI :: "char \<Rightarrow> jschar \<Rightarrow> bool" where
  "litI a c \<longleftrightarrow> c = of_char a \<or> c + 32 = of_char a"

definition ampm :: regex where
  "ampm =
     Cat Bol
    (Cat (Group 1 (Or (Cat (Class (lit CHR ''1'')) (Class (inRange CHR ''0'' CHR ''2'')))
                      (Cat (Opt (lit CHR ''0'')) (Class (inRange CHR ''1'' CHR ''9'')))))
    (Cat (Class (lit CHR '':''))
    (Cat (Group 2 (Cat (Class (inRange CHR ''0'' CHR ''5'')) (Class isDigit)))
    (Cat (Star isSpace)
    (Cat (Group 3 (Or (Cat (Class (litI CHR ''a'')) (Class (litI CHR ''m'')))
                      (Cat (Class (litI CHR ''p'')) (Class (litI CHR ''m'')))))
     Eol)))))"

text \<open>The end of the second expression, \<open>(am|pm)$\<close> under the \<open>i\<close> flag, and what comes
  after its hour, \<open>:([0-5]\d)\s*(am|pm)$\<close>.\<close>

definition periodEnd :: regex where
  "periodEnd =
     Cat (Group 3 (Or (Cat (Class (litI CHR ''a'')) (Class (litI CHR ''m'')))
                      (Cat (Class (litI CHR ''p'')) (Class (litI CHR ''m''))))) Eol"

definition afterHourRegex :: regex where
  "afterHourRegex =
     Cat (Class (lit CHR '':''))
    (Cat (Group 2 (Cat (Class (inRange CHR ''0'' CHR ''5'')) (Class isDigit)))
    (Cat (Star isSpace) periodEnd))"

definition hour12Regex :: regex where
  "hour12Regex =
     Group 1 (Or (Cat (Class (lit CHR ''1'')) (Class (inRange CHR ''0'' CHR ''2'')))
                 (Cat (Opt (lit CHR ''0'')) (Class (inRange CHR ''1'' CHR ''9''))))"

text \<open>\<open>parseInt(s, 10)\<close>, with \<open>None\<close> for \<open>NaN\<close>, and \<open>String(n)\<close> of its result.\<close>

definition parseInt10 :: "jsstring \<Rightarrow> int option" where
  "parseInt10 s =
     (let t = dropWhile isSpace s;
          neg = (t \<noteq> [] \<and> hd t = 45);
          u = (if t \<noteq> [] \<and> (hd t = 45 \<or> hd t = 43) then tl t else t);
          ds = takeWhile isDigit u
      in if ds = [] then None
         else Some ((if neg then - 1 else 1) * int (readNat ds)))"

definition showNumber :: "int option \<Rightarrow> jsstring" where
  "showNumber v =
     (case v of
        None \<Rightarrow> js ''NaN''
      | Some n \<Rightarrow> if n < 0 then 45 # showNat (nat (- n)) else showNat (nat n))"

text \<open>A capture inside a template literal: \<open>undefined\<close> is printed as such.\<close>

definition shown :: "jsstring option \<Rightarrow> jsstring" where
  "shown c = (case c of None \<Rightarrow> js ''undefined'' | Some s \<Rightarrow> s)"

definition normalizeTime :: "host \<Rightarrow> jsstring \<Rightarrow> error + jsstring" where
  "normalizeTime h input =
     (let trimmed = trim input in
      case exec hhmm24 trimmed of
        Some g \<Rightarrow>
          (case g 1 of
             None \<Rightarrow> Inl TypeError
           | Some g1 \<Rightarrow> Inr (padStart0 2 g1 @ js '':'' @ shown (g 2)))
      | None \<Rightarrow>
          (case exec ampm trimmed of
             Some g \<Rightarrow>
               (case g 3 of
                  None \<Rightarrow> Inl TypeError
                | Some g3 \<Rightarrow>
                    (let hh = parseInt10 (shown (g 1));
                         mm = shown (g 2);
                         period = toLowerCase h g3;
                         hh = (if period = js ''pm'' \<and> hh \<noteq> Some 12 then map_option (\<lambda>n. n + 12) hh else hh);
                         hh = (if period = js ''am'' \<and> hh = Some 12 then Some 0 else hh)
                     in Inr (padStart0 2 (showNumber hh) @ js '':'' @ mm)))
           | None \<Rightarrow>
               (case newDate h (js ''1970-01-01T'' @ trimmed) of
                  Some t \<Rightarrow> Inr (pad 2 (getHours h t) @ js '':'' @ pad 2 (getMinutes h t))
                | None \<Rightarrow> Inl (Error ''Invalid time format''))))"

definition normalizeDate :: "host \<Rightarrow> jsstring \<Rightarrow> error + jsstring" where
  "normalizeDate h input =
     (case newDate h input of
        None \<Rightarrow> Inl (Error ''Invalid date format'')
      | Some t \<Rightarrow> Inr (toISOString t))"



text \<open>
  The first two shapes of a time in the words of the specification.  \<open>shape24\<close>: one or
  two digits of a 24-hour hour, a colon and two digits of minutes; it gives the hour and
  the minutes as written.  \<open>shape12\<close>: one or two digits of a 12-hour hour, a colon, two
  digits of minutes, any whitespace and \<open>am\<close> or \<open>pm\<close> in either case; it gives the hour,
  the minutes and the period as written.  \<open>to24\<close> turns an hour of the 12-hour clock
  into the hour of the day: 12 AM is 0 and 12 PM is 12.
\<close>

definition minuteDigits :: "jschar \<Rightarrow> jschar \<Rightarrow> bool" where
  "minuteDigits a b \<longleftrightarrow> inRange CHR ''0'' CHR ''5'' a \<and> isDigit b"

definition hour24Digits :: "jschar \<Rightarrow> jschar \<Rightarrow> bool" where
  "hour24Digits a b \<longleftrightarrow>
     inRange CHR ''0'' CHR ''1'' a \<and> isDigit b \<or> lit CHR ''2'' a \<and> inRange CHR ''0'' CHR ''3'' b"

definition hour12Digits :: "jschar \<Rightarrow> jschar \<Rightarrow> bool" where
  "hour12Digits a b \<longleftrightarrow>
     lit CHR ''1'' a \<and> inRange CHR ''0'' CHR ''2'' b \<or> lit CHR ''0'' a \<and> inRange CHR ''1'' CHR ''9'' b"

fun shape24 :: "jsstring \<Rightarrow> (jsstring \<times> jsstring) option" where
  "shape24 [a, c, m1, m2] =
     (if isDigit a \<and> lit CHR '':'' c \<and> minuteDigits m1 m2 then Some ([a], [m1, m2]) else None)"
| "shape24 [a, b, c, m1, m2] =
     (if hour24Digits a b \<and> lit CHR '':'' c \<and> minuteDigits m1 m2 then Some ([a, b], [m1, m2])
      else None)"
| "shape24 _ = None"

definition period :: "jsstring \<Rightarrow> jsstring option" where
  "period s =
     (case s of
        [x, y] \<Rightarrow> if (litI CHR ''a'' x \<or> litI CHR ''p'' x) \<and> litI CHR ''m'' y then Some [x, y] else None
      | _ \<Rightarrow> None)"

definition afterHour :: "jsstring \<Rightarrow> (jsstring \<times> jsstring) option" where
  "afterHour s =
     (case s of
        c # m1 # m2 # r \<Rightarrow>
          if lit CHR '':'' c \<and> minuteDigits m1 m2
          then map_option (Pair [m1, m2]) (period (dropWhile isSpace r)) else None
      | _ \<Rightarrow> None)"

definition shape12 :: "jsstring \<Rightarrow> (jsstring \<times> jsstring \<times> jsstring) option" where
  "shape12 t =
     (case t of
        a # b # r \<Rightarrow>
          if hour12Digits a b then map_option (Pair [a, b]) (afterHour r)
          else if inRange CHR ''1'' CHR ''9'' a then map_option (Pair [a]) (afterHour (b # r))
          else None
      | _ \<Rightarrow> None)"

definition isPM :: "jsstring \<Rightarrow> bool" where
  "isPM p \<longleftrightarrow> p \<noteq> [] \<and> litI CHR ''p'' (hd p)"

definition to24 :: "nat \<Rightarrow> bool \<Rightarrow> nat" where
  "to24 n pm = (if pm then (if n = 12 then 12 else n + 12) else (if n = 12 then 0 else n))"

text \<open>The three shapes, tried in order.\<close>

definition normalizeTimeSpec :: "host \<Rightarrow> jsstring \<Rightarrow> error + jsstring" where
  "normalizeTimeSpec h input =
     (case shape24 (trim input) of
        Some (hh, mm) \<Rightarrow> Inr (padStart0 2 hh @ js '':'' @ mm)
      | None \<Rightarrow>
          (case shape12 (trim input) of
             Some (hh, mm, p) \<Rightarrow> Inr (padStart0 2 (showNat (to24 (readNat hh) (isPM p))) @ js '':'' @ mm)
           | None \<Rightarrow>
               (case newDate h (js ''1970-01-01T'' @ trim input) of
                  Some t \<Rightarrow> Inr (pad 2 (getHours h t) @ js '':'' @ pad 2 (getMinutes h t))
                | None \<Rightarrow> Inl (Error ''Invalid time format''))))"

section \<open>Documents and the record store\<close>

text \<open>
  A Mongoose document carries the values of its schema paths (\<open>None\<close> is \<open>undefined\<close>),
  its \<open>_id\<close>, whether it is new, and the paths modified since it was built or last saved.
  A collection is the list of the stored values with their \<open>_id\<close>, in the order of
  insertion.  The \<open>createdAt\<close> and \<open>updatedAt\<close>
  stamps of \<open>timestamps: true\<close> are left out: nothing in the repository reads them.
\<close>

type_synonym objectId = nat

record 'a document =
  vals :: 'a
  docId :: objectId
  isNew :: bool
  modifiedPaths :: "string set"

definition isModified :: "string \<Rightarrow> 'a document \<Rightarrow> bool" where
  "isModified p d \<longleftrightarrow> p \<in> modifiedPaths d"

record EventAttrs =
  title :: "jsstring option"
  description :: "jsstring option"
  overview :: "jsstring option"
  image' :: "jsstring option"
  venue :: "jsstring option"
  location :: "jsstring option"
  date :: "jsstring option"
  time :: "jsstring option"
  mode :: "jsstring option"
  audience :: "jsstring option"
  agenda :: "jsstring list option"
  organizer :: "jsstring option"
  tags :: "jsstring list option"

record EventFields = EventAttrs +
  slug :: "jsstring option"

type_synonym EventDoc = "EventFields document"

record BookingAttrs =
  eventId :: "objectId option"
  email :: "jsstring option"

type_synonym BookingDoc = "BookingAttrs document"

type_synonym 'a collection = "(objectId \<times> 'a) list"

record store =
  events :: "EventFields collection"
  bookings :: "BookingAttrs collection"

definition findById :: "'a collection \<Rightarrow> objectId \<Rightarrow> 'a option" where
  "findById c k = map_of c k"

definition insertOne :: "objectId \<Rightarrow> 'a \<Rightarrow> 'a collection \<Rightarrow> 'a collection" where
  "insertOne k v c = c @ [(k, v)]"

definition updateOne :: "objectId \<Rightarrow> ('a \<Rightarrow> 'a) \<Rightarrow> 'a collection \<Rightarrow> 'a collection" where
  "updateOne k f c = map (\<lambda>(k', v). if k' = k then (k', f v) else (k', v)) c"

text \<open>
  Schema validation.  \<open>required\<close> on a string rejects \<open>undefined\<close> and the empty string, on
  an array and on an identifier it rejects \<open>undefined\<close>; a \<open>validate\<close> function runs on a
  defined value that has passed \<open>required\<close>, and a path reports its first failure.
\<close>

definition requiredString :: "string \<Rightarrow> string \<Rightarrow> jsstring option \<Rightarrow> (string \<times> string) list" where
  "requiredString path msg v =
     (case v of None \<Rightarrow> [(path, msg)] | Some s \<Rightarrow> if s = [] then [(path, msg)] else [])"

definition nonBlankString ::
    "string \<Rightarrow> string \<Rightarrow> string \<Rightarrow> jsstring option \<Rightarrow> (string \<times> string) list" where
  "nonBlankString path msg msg' v =
     (case v of
        None \<Rightarrow> [(path, msg)]
      | Some s \<Rightarrow> if s = [] then [(path, msg)] else if length (trim s) > 0 then [] else [(path, msg')])"

definition nonEmptyArray ::
    "string \<Rightarrow> string \<Rightarrow> string \<Rightarrow> jsstring list option \<Rightarrow> (string \<times> string) list" where
  "nonEmptyArray path msg msg' v =
     (case v of None \<Rightarrow> [(path, msg)] | Some arr \<Rightarrow> if length arr > 0 then [] else [(path, msg')])"

section \<open>The event model\<close>

text \<open>The paths of \<open>eventSchema\<close>, in its order, with their validators.\<close>

definition eventValidate :: "EventDoc \<Rightarrow> (string \<times> string) list" where
  "eventValidate d =
     (let f = vals d in
      nonBlankString ''title'' ''Title is required'' ''Title cannot be empty'' (title f)
      @ requiredString ''slug'' ''Path `slug` is required.'' (slug f)
      @ nonBlankString ''description'' ''Description is required'' ''Description cannot be empty''
          (description f)
      @ requiredString ''overview'' ''Path `overview` is required.'' (overview f)
      @ requiredString ''image'' ''Path `image` is required.'' (image' f)
      @ requiredString ''venue'' ''Path `venue` is required.'' (venue f)
      @ requiredString ''location'' ''Path `location` is required.'' (location f)
      @ requiredString ''date'' ''Path `date` is required.'' (date f)
      @ requiredString ''time'' ''Path `time` is required.'' (time f)
      @ requiredString ''mode'' ''Path `mode` is required.'' (mode f)
      @ requiredString ''audience'' ''Path `audience` is required.'' (audience f)
      @ nonEmptyArray ''agenda'' ''Path `agenda` is required.''
          ''Agenda must contain at least one item'' (agenda f)
      @ requiredString ''organizer'' ''Path `organizer` is required.'' (organizer f)
      @ nonEmptyArray ''tags'' ''Path `tags` is required.''
          ''Tags must contain at least one item'' (tags f))"

text \<open>
  The \<open>pre("save")\<close> hook of \<open>eventSchema\<close>.  It assigns to the document as it goes, so
  the document comes back also when a normalizer throws.  \<open>slugify\<close> and \<open>normalizeTime\<close>
  call a method of their argument, which is a \<open>TypeError\<close> when it is \<open>undefined\<close>;
  \<open>normalizeDate\<close> hands it to \<open>new Date\<close>, and the date of \<open>undefined\<close> is invalid.
\<close>

definition slugStep :: "host \<Rightarrow> EventDoc \<Rightarrow> EventDoc \<times> error option" where
  "slugStep h d =
     (if isModified ''title'' d then
        (case title (vals d) of
           None \<Rightarrow> (d, Some TypeError)
         | Some t \<Rightarrow>
             (d\<lparr>vals := (vals d)\<lparr>slug := Some (slugify h t)\<rparr>,
                modifiedPaths :=
                  (if slug (vals d) = Some (slugify h t) then modifiedPaths d
                   else insert ''slug'' (modifiedPaths d))\<rparr>, None))
      else (d, None))"

definition dateStep :: "host \<Rightarrow> EventDoc \<Rightarrow> EventDoc \<times> error option" where
  "dateStep h d =
     (if isModified ''date'' d then
        (case date (vals d) of
           None \<Rightarrow> (d, Some (Error ''Invalid date format''))
         | Some v \<Rightarrow>
             (case normalizeDate h v of
                Inl e \<Rightarrow> (d, Some e)
              | Inr v' \<Rightarrow> (d\<lparr>vals := (vals d)\<lparr>date := Some v'\<rparr>\<rparr>, None)))
      else (d, None))"

definition timeStep :: "host \<Rightarrow> EventDoc \<Rightarrow> EventDoc \<times> error option" where
  "timeStep h d =
     (if isModified ''time'' d then
        (case time (vals d) of
           None \<Rightarrow> (d, Some TypeError)
         | Some v \<Rightarrow>
             (case normalizeTime h v of
                Inl e \<Rightarrow> (d, Some e)
              | Inr v' \<Rightarrow> (d\<lparr>vals := (vals d)\<lparr>time := Some v'\<rparr>\<rparr>, None)))
      else (d, None))"

definition eventPreSave :: "host \<Rightarrow> EventDoc \<Rightarrow> EventDoc \<times> error option" where
  "eventPreSave h d =
     (case slugStep h d of
        (d1, Some e) \<Rightarrow> (d1, Some e)
      | (d1, None) \<Rightarrow>
          (case dateStep h d1 of
             (d2, Some e) \<Rightarrow> (d2, Some e)
           | (d2, None) \<Rightarrow> timeStep h d2))"

text \<open>
  \<open>Event.build(attrs)\<close>, that is \<open>new Event(attrs)\<close> with a fresh \<open>_id\<close>: the \<open>trim\<close>
  setters run on the paths that declare them, an array path that is not given defaults to
  the empty array, and the paths given are the modified ones.  \<open>EventAttrs\<close> has no slug.
\<close>

definition givenPaths :: "(string \<times> bool) list \<Rightarrow> string set" where
  "givenPaths ps = set (map fst (filter snd ps))"

definition eventBuild :: "EventAttrs \<Rightarrow> objectId \<Rightarrow> EventDoc" where
  "eventBuild attrs oid =
     \<lparr> vals =
         \<lparr> title = map_option trim (title attrs),
           description = description attrs,
           overview = map_option trim (overview attrs),
           image' = map_option trim (image' attrs),
           venue = map_option trim (venue attrs),
           location = map_option trim (location attrs),
           date = date attrs,
           time = time attrs,
           mode = map_option trim (mode attrs),
           audience = map_option trim (audience attrs),
           agenda = Some (case agenda attrs of None \<Rightarrow> [] | Some a \<Rightarrow> a),
           organizer = map_option trim (organizer attrs),
           tags = Some (case tags attrs of None \<Rightarrow> [] | Some a \<Rightarrow> a),
           slug = None \<rparr>,
       docId = oid,
       isNew = True,
       modifiedPaths = givenPaths
         [(''title'', title attrs \<noteq> None), (''description'', description attrs \<noteq> None),
          (''overview'', overview attrs \<noteq> None), (''image'', image' attrs \<noteq> None),
          (''venue'', venue attrs \<noteq> None), (''location'', location attrs \<noteq> None),
          (''date'', date attrs \<noteq> None), (''time'', time attrs \<noteq> None),
          (''mode'', mode attrs \<noteq> None), (''audience'', audience attrs \<noteq> None),
          (''agenda'', agenda attrs \<noteq> None), (''organizer'', organizer attrs \<noteq> None),
          (''tags'', tags attrs \<noteq> None)] \<rparr>"

text \<open>An assignment to a path of a document, here \<open>doc.venue = v\<close>: the setter runs, and
  the path is modified when the value changes.\<close>

definition setVenue :: "jsstring \<Rightarrow> EventDoc \<Rightarrow> EventDoc" where
  "setVenue v d =
     (if venue (vals d) = Some (trim v) then d
      else d\<lparr>vals := (vals d)\<lparr>venue := Some (trim v)\<rparr>,
             modifiedPaths := insert ''venue'' (modifiedPaths d)\<rparr>)"

definition setTitle :: "jsstring \<Rightarrow> EventDoc \<Rightarrow> EventDoc" where
  "setTitle v d =
     (if title (vals d) = Some (trim v) then d
      else d\<lparr>vals := (vals d)\<lparr>title := Some (trim v)\<rparr>,
             modifiedPaths := insert ''title'' (modifiedPaths d)\<rparr>)"

text \<open>
  Writing a document: a new one is inserted, a stored one has its modified paths set.  The
  unique index on \<open>slug\<close> rejects a slug that another stored event has.
\<close>

definition slugTaken :: "store \<Rightarrow> EventDoc \<Rightarrow> bool" where
  "slugTaken st d \<longleftrightarrow>
     list_ex (\<lambda>(k, stored). k \<noteq> docId d \<and> slug stored = slug (vals d)) (events st)"

definition eventMerge :: "string set \<Rightarrow> EventFields \<Rightarrow> EventFields \<Rightarrow> EventFields" where
  "eventMerge m new old =
     \<lparr> title = (if ''title'' \<in> m then title new else title old),
       description = (if ''description'' \<in> m then description new else description old),
       overview = (if ''overview'' \<in> m then overview new else overview old),
       image' = (if ''image'' \<in> m then image' new else image' old),
       venue = (if ''venue'' \<in> m then venue new else venue old),
       location = (if ''location'' \<in> m then location new else location old),
       date = (if ''date'' \<in> m then date new else date old),
       time = (if ''time'' \<in> m then time new else time old),
       mode = (if ''mode'' \<in> m then mode new else mode old),
       audience = (if ''audience'' \<in> m then audience new else audience old),
       agenda = (if ''agenda'' \<in> m then agenda new else agenda old),
       organizer = (if ''organizer'' \<in> m then organizer new else organizer old),
       tags = (if ''tags'' \<in> m then tags new else tags old),
       slug = (if ''slug'' \<in> m then slug new else slug old) \<rparr>"

definition eventWrite :: "store \<Rightarrow> EventDoc \<Rightarrow> store \<times> EventDoc \<times> error option" where
  "eventWrite st d =
     (if isNew d then
        (if findById (events st) (docId d) \<noteq> None then (st, d, Some (DuplicateKey ''_id''))
         else if slugTaken st d then (st, d, Some (DuplicateKey ''slug''))
         else (st\<lparr>events := insertOne (docId d) (vals d) (events st)\<rparr>,
               d\<lparr>isNew := False, modifiedPaths := {}\<rparr>, None))
      else
        (case findById (events st) (docId d) of
           None \<Rightarrow> (st, d, Some DocumentNotFound)
         | Some old \<Rightarrow>
             if ''slug'' \<in> modifiedPaths d \<and> slugTaken st d then (st, d, Some (DuplicateKey ''slug''))
             else (st\<lparr>events :=
                       updateOne (docId d) (eventMerge (modifiedPaths d) (vals d)) (events st)\<rparr>,
                   d\<lparr>modifiedPaths := {}\<rparr>, None)))"

text \<open>
  \<open>doc.save()\<close>.  Mongoose registers validation as the first \<open>pre("save")\<close> hook of every
  schema, so the schema's validators run before the hooks the model adds; a hook that
  throws aborts the save; then the document is written.  The result is the store, the
  document as the caller now holds it, and the error the save was rejected with.
\<close>

definition eventSave :: "host \<Rightarrow> store \<Rightarrow> EventDoc \<Rightarrow> store \<times> EventDoc \<times> error option" where
  "eventSave h st d =
     (case eventValidate d of
        e # es \<Rightarrow> (st, d, Some (ValidationError (e # es)))
      | [] \<Rightarrow>
          (case eventPreSave h d of
             (d', Some err) \<Rightarrow> (st, d', Some err)
           | (d', None) \<Rightarrow> eventWrite st d'))"

section \<open>The booking model\<close>

text \<open>\<open>EMAIL_REGEX\<close>, \<open>/^[^\s@]+@[^\s@]+\.[^\s@]+$/\<close>.\<close>

definition notSpaceAt :: "jschar \<Rightarrow> bool" where
  "notSpaceAt c \<longleftrightarrow> \<not> (isSpace c \<or> c = of_char CHR ''@'')"

definition EMAIL_REGEX :: regex where
  "EMAIL_REGEX =
     Cat Bol
    (Cat (Plus notSpaceAt)
    (Cat (Class (lit CHR ''@''))
    (Cat (Plus notSpaceAt)
    (Cat (Class (lit CHR ''.''))
    (Cat (Plus notSpaceAt)
     Eol)))))"

definition bookingValidate :: "BookingDoc \<Rightarrow> (string \<times> string) list" where
  "bookingValidate d =
     (case eventId (vals d) of None \<Rightarrow> [(''eventId'', ''eventId is required'')] | Some _ \<Rightarrow> [])
     @ (case email (vals d) of
          None \<Rightarrow> [(''email'', ''Email is required'')]
        | Some v \<Rightarrow>
            if v = [] then [(''email'', ''Email is required'')]
            else if test EMAIL_REGEX v then [] else [(''email'', ''Invalid email format'')])"

text \<open>\<open>Event.exists({ _id: id })\<close>; no stored event has an undefined \<open>_id\<close>.\<close>

definition eventExists :: "store \<Rightarrow> objectId option \<Rightarrow> bool" where
  "eventExists st i = (case i of None \<Rightarrow> False | Some k \<Rightarrow> findById (events st) k \<noteq> None)"

text \<open>The \<open>pre("save")\<close> hook of \<open>bookingSchema\<close>.\<close>

definition bookingPreSave :: "store \<Rightarrow> BookingDoc \<Rightarrow> error option" where
  "bookingPreSave st d =
     (let exists = eventExists st (eventId (vals d)) in
      if \<not> exists then Some (Error ''Referenced event does not exist'') else None)"

text \<open>\<open>Booking.build(attrs)\<close>: the setters of \<open>email\<close> lower-case and trim it.\<close>

definition emailSetter :: "host \<Rightarrow> jsstring \<Rightarrow> jsstring" where
  "emailSetter h v = trim (toLowerCase h v)"

definition bookingBuild :: "host \<Rightarrow> BookingAttrs \<Rightarrow> objectId \<Rightarrow> BookingDoc" where
  "bookingBuild h attrs oid =
     \<lparr> vals = \<lparr> eventId = eventId attrs, email = map_option (emailSetter h) (email attrs) \<rparr>,
       docId = oid,
       isNew = True,
       modifiedPaths = givenPaths
         [(''eventId'', eventId attrs \<noteq> None), (''email'', email attrs \<noteq> None)] \<rparr>"

definition setEmail :: "host \<Rightarrow> jsstring \<Rightarrow> BookingDoc \<Rightarrow> BookingDoc" where
  "setEmail h v d =
     (if email (vals d) = Some (emailSetter h v) then d
      else d\<lparr>vals := (vals d)\<lparr>email := Some (emailSetter h v)\<rparr>,
             modifiedPaths := insert ''email'' (modifiedPaths d)\<rparr>)"

definition bookingMerge :: "string set \<Rightarrow> BookingAttrs \<Rightarrow> BookingAttrs \<Rightarrow> BookingAttrs" where
  "bookingMerge m new old =
     \<lparr> eventId = (if ''eventId'' \<in> m then eventId new else eventId old),
       email = (if ''email'' \<in> m then email new else email old) \<rparr>"

definition bookingWrite :: "store \<Rightarrow> BookingDoc \<Rightarrow> store \<times> BookingDoc \<times> error option" where
  "bookingWrite st d =
     (if isNew d then
        (if findById (bookings st) (docId d) \<noteq> None then (st, d, Some (DuplicateKey ''_id''))
         else (st\<lparr>bookings := insertOne (docId d) (vals d) (bookings st)\<rparr>,
               d\<lparr>isNew := False, modifiedPaths := {}\<rparr>, None))
      else
        (case findById (bookings st) (docId d) of
           None \<Rightarrow> (st, d, Some DocumentNotFound)
         | Some old \<Rightarrow>
             (st\<lparr>bookings :=
                  updateOne (docId d) (bookingMerge (modifiedPaths d) (vals d)) (bookings st)\<rparr>,
              d\<lparr>modifiedPaths := {}\<rparr>, None)))"

definition bookingSave :: "store \<Rightarrow> BookingDoc \<Rightarrow> store \<times> BookingDoc \<times> error option" where
  "bookingSave st d =
     (case bookingValidate d of
        e # es \<Rightarrow> (st, d, Some (ValidationError (e # es)))
      | [] \<Rightarrow>
          (case bookingPreSave st d of
             Some err \<Rightarrow> (st, d, Some err)
           | None \<Rightarrow> bookingWrite st d))"

text \<open>
  The static constraints in the words of the specification: a string is blank when it is
  missing or empty after trim, an array is empty when it is missing or has no element.
  \<open>offendingAttrs\<close> lists the paths of the attributes that break a constraint;
  \<open>offending\<close> does so for a document, where the \<open>trim\<close> setters have already run on the
  paths that declare them.
\<close>

definition blank :: "jsstring option \<Rightarrow> bool" where
  "blank v = (case v of None \<Rightarrow> True | Some s \<Rightarrow> trim s = [])"

definition absent :: "jsstring option \<Rightarrow> bool" where
  "absent v = (case v of None \<Rightarrow> True | Some s \<Rightarrow> s = [])"

definition noItems :: "jsstring list option \<Rightarrow> bool" where
  "noItems v = (case v of None \<Rightarrow> True | Some a \<Rightarrow> a = [])"

definition pathsWhere :: "(string \<times> bool) list \<Rightarrow> string list" where
  "pathsWhere ps = map fst (filter snd ps)"

definition offendingAttrs :: "EventAttrs \<Rightarrow> string list" where
  "offendingAttrs a =
     pathsWhere
       [(''title'', blank (title a)), (''description'', blank (description a)),
        (''agenda'', noItems (agenda a)), (''tags'', noItems (tags a)),
        (''overview'', blank (overview a)), (''image'', blank (image' a)),
        (''venue'', blank (venue a)), (''location'', blank (location a)),
        (''mode'', blank (mode a)), (''audience'', blank (audience a)),
        (''organizer'', blank (organizer a))]"

definition offending :: "EventDoc \<Rightarrow> string list" where
  "offending d =
     pathsWhere
       [(''title'', blank (title (vals d))), (''description'', blank (description (vals d))),
        (''agenda'', noItems (agenda (vals d))), (''tags'', noItems (tags (vals d))),
        (''overview'', absent (overview (vals d))), (''image'', absent (image' (vals d))),
        (''venue'', absent (venue (vals d))), (''location'', absent (location (vals d))),
        (''mode'', absent (mode (vals d))), (''audience'', absent (audience (vals d))),
        (''organizer'', absent (organizer (vals d)))]"

section \<open>Example hosts, documents and stores\<close>

text \<open>Two hosts that differ in their time zone only: UTC, and one hour east of it
  (West Africa Time).  Outside ASCII they leave code units as they are, and they reject every
  date string outside the ECMAScript format.\<close>

definition hostUTC :: host where
  "hostUTC = \<lparr> lowerNonAscii = (\<lambda>s i. [s ! i]), dateFallback = (\<lambda>s. None), localTZA = (\<lambda>t u. 0) \<rparr>"

definition hostWAT :: host where
  "hostWAT = \<lparr> lowerNonAscii = (\<lambda>s i. [s ! i]), dateFallback = (\<lambda>s. None), localTZA = (\<lambda>t u. 3600000) \<rparr>"

definition talkAttrs :: EventAttrs where
  "talkAttrs =
     \<lparr> title = Some (js ''My Talk!''), description = Some (js ''A talk''),
       overview = Some (js ''Overview''), image' = Some (js ''/talk.png''),
       venue = Some (js ''Hall 1''), location = Some (js ''Lagos''),
       date = Some (js ''2026-06-10''), time = Some (js ''9:00 AM''),
       mode = Some (js ''offline''), audience = Some (js ''Developers''),
       agenda = Some [js ''Keynote''], organizer = Some (js ''ACME''),
       tags = Some [js ''web''] \<rparr>"

definition noTagAttrs :: EventAttrs where
  "noTagAttrs = talkAttrs\<lparr>tags := Some []\<rparr>"

definition emptyStore :: store where
  "emptyStore = \<lparr> events = [], bookings = [] \<rparr>"

text \<open>An event as a caller may hand it to \<open>new Event\<close> with a slug of its own.\<close>

definition talkDoc :: EventDoc where
  "talkDoc =
     (eventBuild talkAttrs 1)
       \<lparr>vals := (vals (eventBuild talkAttrs 1))\<lparr>slug := Some (js ''placeholder'')\<rparr>,
         modifiedPaths := insert ''slug'' (modifiedPaths (eventBuild talkAttrs 1))\<rparr>"

definition talkStore :: store where
  "talkStore = fst (eventSave hostUTC emptyStore talkDoc)"

definition talkSaved :: EventDoc where
  "talkSaved = fst (snd (eventSave hostUTC emptyStore talkDoc))"

definition adaAttrs :: BookingAttrs where
  "adaAttrs = \<lparr> eventId = Some 1, email = Some (js ''  Ada@Example.COM '') \<rparr>"

definition badAttrs :: BookingAttrs where
  "badAttrs = \<lparr> eventId = Some 7, email = Some (js ''not-an-email'') \<rparr>"

text \<open>A store that holds this event only.\<close>

definition eventStore :: store where
  "eventStore = \<lparr> events = [(1, vals talkDoc)], bookings = [] \<rparr>"

text \<open>A stored booking whose event is gone from the store.\<close>

definition orphanDoc :: BookingDoc where
  "orphanDoc =
     \<lparr> vals = \<lparr> eventId = Some 1, email = Some (js ''ada@example.com'') \<rparr>,
       docId = 2, isNew = False, modifiedPaths = {} \<rparr>"

definition orphanStore :: store where
  "orphanStore = \<lparr> events = [], bookings = [(2, vals orphanDoc)] \<rparr>"

section \<open>Properties of the regular expressions\<close>

declare replaceAll.simps [simp del]
declare search.simps [simp del]
declare showNat.simps [simp del]

lemma js_simps: "js [] = []" "js (c # cs) = of_char c # js cs"
  by (simp_all add: js_def)

lemma many_hd:
  "many p i s g \<noteq> [] \<and> hd (many p i s g) = (i + length (takeWhile p s), dropWhile p s, g)"
  by (induction s arbitrary: i) (auto simp: hd_append)

lemma many_head:
  "\<exists>rest. many p i s g = (i + length (takeWhile p s), dropWhile p s, g) # rest"
  using many_hd [of p i s g] by (cases "many p i s g") auto

lemma replaceAll_Class: "replaceAll (Class p) [] i s = filter (\<lambda>c. \<not> p c) s"
proof (induction s arbitrary: i)
  case Nil
  show ?case by (subst replaceAll.simps) simp
next
  case (Cons c cs)
  show ?case by (subst replaceAll.simps) (simp add: Cons.IH)
qed

lemma replaceAll_Plus: "replaceAll (Plus p) [45] i s = collapseRuns p s"
proof (induction p s arbitrary: i rule: collapseRuns.induct)
  case (1 p)
  show ?case by (subst replaceAll.simps) simp
next
  case (2 p c cs)
  show ?case
  proof (cases "p c")
    case False
    with 2 show ?thesis by (subst replaceAll.simps) simp
  next
    case True
    obtain rest where m: "many p (Suc i) cs Map.empty
        = (Suc i + length (takeWhile p cs), dropWhile p cs, Map.empty) # rest"
      using many_head by blast
    have len: "length (dropWhile p cs) < length (c # cs)"
      by (simp add: length_dropWhile_le le_imp_less_Suc)
    show ?thesis
      using True m len 2(1) [OF True] by (subst replaceAll.simps) simp
  qed
qed

section \<open>Properties of the slug generator\<close>

lemma slugify_stages:
  "slugify h input =
     collapseRuns isHyphen (collapseRuns isSpace (filter slugInput (trim (toLowerCase h input))))"
proof -
  have "(\<lambda>c. \<not> notSlugInput c) = slugInput"
    by (simp add: notSlugInput_def slugInput_def fun_eq_iff)
  then show ?thesis
    by (simp add: slugify_def js_simps replaceAll_Class replaceAll_Plus)
qed

lemma collapseRuns_chars:
  "list_all q s \<Longrightarrow> q 45 \<Longrightarrow> list_all q (collapseRuns p s)"
proof (induction p s rule: collapseRuns.induct)
  case (1 p)
  show ?case by simp
next
  case (2 p c cs)
  have d: "list_all q (dropWhile p cs)"
    using 2(3) set_dropWhileD [of _ p cs] by (auto simp: list_all_iff)
  show ?case
  proof (cases "p c")
    case True
    then show ?thesis using 2(1) [OF True d 2(4)] 2(4) by simp
  next
    case False
    then show ?thesis using 2(2) [OF False _ 2(4)] 2(3) by simp
  qed
qed

lemma collapseRuns_removes:
  "list_all (\<lambda>c. \<not> p c \<or> c = 45) (collapseRuns p s)"
  by (induction p s rule: collapseRuns.induct) simp_all

lemma collapseRuns_start:
  "s = [] \<or> \<not> p (hd s) \<Longrightarrow> collapseRuns p s = [] \<or> hd (collapseRuns p s) = hd s \<and> s \<noteq> []"
  by (cases s) auto

lemma dropWhile_start: "dropWhile p s = [] \<or> \<not> p (hd (dropWhile p s))"
  using hd_dropWhile [of p s] by blast

lemma hasDoubleHyphen_Cons:
  "hasDoubleHyphen (a # s) \<longleftrightarrow> (a = 45 \<and> s \<noteq> [] \<and> hd s = 45) \<or> hasDoubleHyphen s"
  by (cases s) auto

lemma collapseRuns_no_double: "\<not> hasDoubleHyphen (collapseRuns isHyphen s)"
proof (induction "isHyphen" s rule: collapseRuns.induct)
  case 1
  show ?case by simp
next
  case (2 c cs)
  show ?case
  proof (cases "isHyphen c")
    case True
    let ?d = "dropWhile isHyphen cs"
    have "collapseRuns isHyphen ?d = [] \<or> hd (collapseRuns isHyphen ?d) = hd ?d \<and> ?d \<noteq> []"
      using collapseRuns_start [OF dropWhile_start] .
    moreover have "?d = [] \<or> hd ?d \<noteq> 45"
      using dropWhile_start [of isHyphen cs] by (simp only: isHyphen_def)
    ultimately have "collapseRuns isHyphen ?d = [] \<or> hd (collapseRuns isHyphen ?d) \<noteq> 45"
      by metis
    then have "\<not> hasDoubleHyphen (45 # collapseRuns isHyphen ?d)"
      using 2(1) [OF True] by (simp only: hasDoubleHyphen_Cons) blast
    then show ?thesis
      using True by simp
  next
    case False
    then show ?thesis
      using 2(2) by (auto simp: hasDoubleHyphen_Cons isHyphen_def)
  qed
qed

lemma slugify_chars: "list_all slugChar (slugify h input)"
proof -
  let ?f = "filter slugInput (trim (toLowerCase h input))"
  have "list_all slugInput ?f"
    by (simp add: list_all_iff)
  then have a: "list_all slugInput (collapseRuns isSpace ?f)"
    by (rule collapseRuns_chars) (simp add: slugInput_def isHyphen_def)
  have b: "list_all (\<lambda>c. \<not> isSpace c \<or> c = 45) (collapseRuns isSpace ?f)"
    by (rule collapseRuns_removes)
  have "list_all slugChar (collapseRuns isSpace ?f)"
    using a b unfolding list_all_iff slugChar_def slugInput_def isHyphen_def by blast
  then have "list_all slugChar (collapseRuns isHyphen (collapseRuns isSpace ?f))"
    by (rule collapseRuns_chars) (simp add: slugChar_def isHyphen_def)
  then show ?thesis
    by (simp add: slugify_stages)
qed

lemma slugify_no_double: "\<not> hasDoubleHyphen (slugify h input)"
  by (simp add: slugify_stages collapseRuns_no_double)

lemma toLowerCase_ascii:
  assumes "list_all (\<lambda>c. c < 128 \<and> \<not> isUpperAz c) s"
  shows "toLowerCase h s = s"
proof -
  have "\<And>i. i < length s \<Longrightarrow> lowerAt h s i = [s ! i]"
    using assms by (simp add: lowerAt_def list_all_length)
  then have "map (lowerAt h s) [0..<length s] = map (\<lambda>i. [s ! i]) [0..<length s]"
    by simp
  then have "toLowerCase h s = concat (map (\<lambda>i. [s ! i]) [0..<length s])"
    by (simp only: toLowerCase_def)
  also have "\<dots> = map (\<lambda>i. s ! i) [0..<length s]"
    by (rule concat_map_singleton)
  also have "\<dots> = s"
    by (rule map_nth)
  finally show ?thesis .
qed

lemma dropWhile_none: "list_all (\<lambda>c. \<not> p c) s \<Longrightarrow> dropWhile p s = s"
  by (cases s) auto

lemma trim_none: "list_all (\<lambda>c. \<not> isSpace c) s \<Longrightarrow> trim s = s"
  by (simp add: trim_def dropWhile_none list_all_iff)

lemma collapseRuns_none: "list_all (\<lambda>c. \<not> p c) s \<Longrightarrow> collapseRuns p s = s"
  by (induction p s rule: collapseRuns.induct) auto

lemma collapseRuns_single: "\<not> hasDoubleHyphen s \<Longrightarrow> collapseRuns isHyphen s = s"
proof (induction "isHyphen" s rule: collapseRuns.induct)
  case 1
  show ?case by simp
next
  case (2 c cs)
  show ?case
  proof (cases "isHyphen c")
    case True
    have "cs = [] \<or> \<not> isHyphen (hd cs)"
      using True 2(3) by (auto simp: hasDoubleHyphen_Cons isHyphen_def)
    then have d: "dropWhile isHyphen cs = cs"
      by (cases cs) auto
    have "\<not> hasDoubleHyphen cs"
      using 2(3) by (simp add: hasDoubleHyphen_Cons)
    then show ?thesis
      using True d 2(1) by (simp add: isHyphen_def)
  next
    case False
    then show ?thesis
      using 2(2,3) by (simp add: hasDoubleHyphen_Cons)
  qed
qed

lemma slug_fixed:
  assumes c: "list_all slugChar t" and d: "\<not> hasDoubleHyphen t"
  shows "slugify h t = t"
proof -
  have 1: "toLowerCase h t = t"
    using c by (intro toLowerCase_ascii)
      (auto simp: list_all_iff slugChar_def isLowerAz_def isDigit_def isHyphen_def isUpperAz_def)
  have ns: "list_all (\<lambda>c. \<not> isSpace c) t"
    using c by (auto simp: list_all_iff slugChar_def isLowerAz_def isDigit_def isHyphen_def isSpace_def)
  have 2: "trim t = t"
    using ns by (rule trim_none)
  have 3: "filter slugInput t = t"
    using c by (simp add: filter_id_conv list_all_iff slugChar_def slugInput_def) blast
  have 4: "collapseRuns isSpace t = t"
    using ns by (rule collapseRuns_none)
  show ?thesis
    by (simp add: slugify_stages 1 2 3 4 collapseRuns_single [OF d])
qed

section \<open>Evaluation helpers\<close>

lemmas char_defs =
  isSpace_def isDigit_def isLowerAz_def isUpperAz_def isHyphen_def lit_def inRange_def litI_def
  notSpaceAt_def



lemmas parse_defs =
  isoParse_def parseYear_def parseMonthDay_def parseSeconds_def parseOffset_def parseField_def
  digits_def readNat_def


lemmas regex_defs = exec_def test_def search.simps hhmm24_def ampm_def EMAIL_REGEX_def


lemma findById_insertOne:
  "findById (insertOne k v c) k' = (if k' = k \<and> findById c k = None then Some v else findById c k')"
  by (auto simp: findById_def insertOne_def map_add_def split: option.splits)

lemma findById_updateOne:
  "findById (updateOne k f c) k' = (if k' = k then map_option f (findById c k) else findById c k')"
  by (induction c) (auto simp: findById_def updateOne_def)

section \<open>Properties of the booking model\<close>

lemma bookingSave_invalid:
  "bookingValidate d \<noteq> [] \<Longrightarrow> bookingSave st d = (st, d, Some (ValidationError (bookingValidate d)))"
  by (cases "bookingValidate d") (simp_all add: bookingSave_def)

lemma bookingSave_valid:
  "bookingValidate d = [] \<Longrightarrow>
   bookingSave st d =
     (if eventExists st (eventId (vals d)) then bookingWrite st d
      else (st, d, Some (Error ''Referenced event does not exist'')))"
  by (simp add: bookingSave_def bookingPreSave_def)

lemma bookingValidate_email:
  "email (vals d) = Some e \<Longrightarrow> \<not> test EMAIL_REGEX e \<Longrightarrow> ''email'' \<in> fst ` set (bookingValidate d)"
  by (simp add: bookingValidate_def)

lemma bookingValidate_ok:
  "bookingValidate d = [] \<Longrightarrow>
   \<exists>k e. eventId (vals d) = Some k \<and> email (vals d) = Some e \<and> e \<noteq> [] \<and> test EMAIL_REGEX e"
  by (auto simp: bookingValidate_def split: option.splits if_splits)

lemma bookingWrite_stored:
  assumes "bookingWrite st d = (st', d', None)" and "isNew d \<or> isModified ''email'' d"
  shows "map_option email (findById (bookings st') (docId d)) = Some (email (vals d))"
  using assms
  by (auto simp: bookingWrite_def findById_insertOne findById_updateOne bookingMerge_def
      isModified_def split: if_splits option.splits)

lemma ada_email: "emailSetter hostUTC (js ''  Ada@Example.COM '') = js ''ada@example.com''"
  by (simp add: emailSetter_def js_simps toLowerCase_def lowerAt_def upt_rec trim_def char_defs)

lemma ada_valid: "test EMAIL_REGEX (js ''ada@example.com'')"
  by (simp add: js_simps regex_defs char_defs)

lemma bad_invalid: "\<not> test EMAIL_REGEX (js ''not-an-email'')"
  by (simp add: js_simps regex_defs char_defs)

lemma bad_email: "emailSetter hostUTC (js ''not-an-email'') = js ''not-an-email''"
  by (simp add: emailSetter_def js_simps toLowerCase_def lowerAt_def upt_rec trim_def char_defs)

lemma ada_doc:
  "bookingBuild hostUTC adaAttrs k =
     \<lparr> vals = \<lparr> eventId = Some 1, email = Some (js ''ada@example.com'') \<rparr>,
       docId = k, isNew = True, modifiedPaths = {''eventId'', ''email''} \<rparr>"
  by (simp add: bookingBuild_def adaAttrs_def ada_email givenPaths_def insert_commute)

lemma bad_doc:
  "bookingBuild hostUTC badAttrs k =
     \<lparr> vals = \<lparr> eventId = Some 7, email = Some (js ''not-an-email'') \<rparr>,
       docId = k, isNew = True, modifiedPaths = {''eventId'', ''email''} \<rparr>"
  by (simp add: bookingBuild_def badAttrs_def bad_email givenPaths_def insert_commute)

lemma ada_validate: "bookingValidate (bookingBuild hostUTC adaAttrs k) = []"
  using ada_valid by (simp add: ada_doc bookingValidate_def) (simp add: js_simps)

lemma bad_validate:
  "bookingValidate (bookingBuild hostUTC badAttrs k) = [(''email'', ''Invalid email format'')]"
  using bad_invalid by (simp add: bad_doc bookingValidate_def) (simp add: js_simps)

lemma orphan_validate: "bookingValidate orphanDoc = []"
  using ada_valid by (simp add: orphanDoc_def bookingValidate_def) (simp add: js_simps)

section \<open>Properties of the event model\<close>

lemma dropWhile_all: "list_all p (dropWhile p s) \<longleftrightarrow> dropWhile p s = []"
proof (cases "dropWhile p s")
  case Nil
  show ?thesis unfolding Nil by simp
next
  case (Cons a l)
  have "\<not> p (hd (dropWhile p s))"
    by (rule hd_dropWhile) (simp add: Cons)
  then have "\<not> p a"
    unfolding Cons by simp
  then show ?thesis
    unfolding Cons by simp
qed

lemma trim_Nil_iff: "trim s = [] \<longleftrightarrow> list_all isSpace s"
proof -
  have "trim s = [] \<longleftrightarrow> list_all isSpace (dropWhile isSpace s)"
    by (simp add: trim_def dropWhile_eq_Nil_conv list_all_iff)
  also have "\<dots> \<longleftrightarrow> dropWhile isSpace s = []"
    by (rule dropWhile_all)
  also have "\<dots> \<longleftrightarrow> list_all isSpace s"
    by (simp add: dropWhile_eq_Nil_conv list_all_iff)
  finally show ?thesis .
qed

lemma trim_trim_Nil: "trim (trim s) = [] \<longleftrightarrow> trim s = []"
proof -
  let ?r = "dropWhile isSpace (rev (dropWhile isSpace s))"
  have "list_all isSpace (trim s) \<longleftrightarrow> list_all isSpace ?r"
    by (simp add: trim_def list_all_iff)
  also have "\<dots> \<longleftrightarrow> ?r = []"
    by (rule dropWhile_all)
  also have "\<dots> \<longleftrightarrow> trim s = []"
    by (simp add: trim_def)
  finally show ?thesis
    by (simp add: trim_Nil_iff)
qed

lemma blank_trim: "blank (map_option trim v) = blank v"
  by (cases v) (simp_all add: blank_def trim_trim_Nil)

lemma absent_trim: "absent (map_option trim v) = blank v"
  by (cases v) (simp_all add: blank_def absent_def)

lemma noItems_default: "noItems (Some (case v of None \<Rightarrow> [] | Some a \<Rightarrow> a)) = noItems v"
  by (cases v) (simp_all add: noItems_def)

lemma offending_build: "offending (eventBuild attrs oid) = offendingAttrs attrs"
  by (simp add: offending_def offendingAttrs_def eventBuild_def blank_trim absent_trim
      noItems_default)

lemma requiredString_names:
  "absent v \<Longrightarrow> p \<in> fst ` set (requiredString p m v)"
  by (cases v) (simp_all add: absent_def requiredString_def)

lemma nonBlankString_names:
  "blank v \<Longrightarrow> p \<in> fst ` set (nonBlankString p m m' v)"
  by (cases v) (simp_all add: blank_def nonBlankString_def)

lemma nonEmptyArray_names:
  "noItems v \<Longrightarrow> p \<in> fst ` set (nonEmptyArray p m m' v)"
  by (cases v) (simp_all add: noItems_def nonEmptyArray_def)

lemma pathsWhere_mem: "p \<in> set (pathsWhere ps) \<longleftrightarrow> (p, True) \<in> set ps"
  by (induction ps) (auto simp: pathsWhere_def)

lemma offending_named: "set (offending d) \<subseteq> fst ` set (eventValidate d)"
proof
  fix p assume "p \<in> set (offending d)"
  then have "(p, True) \<in> set
       [(''title'', blank (title (vals d))), (''description'', blank (description (vals d))),
        (''agenda'', noItems (agenda (vals d))), (''tags'', noItems (tags (vals d))),
        (''overview'', absent (overview (vals d))), (''image'', absent (image' (vals d))),
        (''venue'', absent (venue (vals d))), (''location'', absent (location (vals d))),
        (''mode'', absent (mode (vals d))), (''audience'', absent (audience (vals d))),
        (''organizer'', absent (organizer (vals d)))]"
    by (simp only: offending_def pathsWhere_mem)
  then consider
      "p = ''title''" "blank (title (vals d))"
    | "p = ''description''" "blank (description (vals d))"
    | "p = ''agenda''" "noItems (agenda (vals d))"
    | "p = ''tags''" "noItems (tags (vals d))"
    | "p = ''overview''" "absent (overview (vals d))"
    | "p = ''image''" "absent (image' (vals d))"
    | "p = ''venue''" "absent (venue (vals d))"
    | "p = ''location''" "absent (location (vals d))"
    | "p = ''mode''" "absent (mode (vals d))"
    | "p = ''audience''" "absent (audience (vals d))"
    | "p = ''organizer''" "absent (organizer (vals d))"
    unfolding list.set insert_iff prod.inject empty_iff by metis
  then show "p \<in> fst ` set (eventValidate d)"
  proof cases
    case 1 then show ?thesis
      using nonBlankString_names [of "title (vals d)" "''title''"]
      by (simp add: eventValidate_def Let_def image_Un)
  next
    case 2 then show ?thesis
      using nonBlankString_names [of "description (vals d)" "''description''"]
      by (simp add: eventValidate_def Let_def image_Un)
  next
    case 3 then show ?thesis
      using nonEmptyArray_names [of "agenda (vals d)" "''agenda''"]
      by (simp add: eventValidate_def Let_def image_Un)
  next
    case 4 then show ?thesis
      using nonEmptyArray_names [of "tags (vals d)" "''tags''"]
      by (simp add: eventValidate_def Let_def image_Un)
  next
    case 5 then show ?thesis
      using requiredString_names [of "overview (vals d)" "''overview''"]
      by (simp add: eventValidate_def Let_def image_Un)
  next
    case 6 then show ?thesis
      using requiredString_names [of "image' (vals d)" "''image''"]
      by (simp add: eventValidate_def Let_def image_Un)
  next
    case 7 then show ?thesis
      using requiredString_names [of "venue (vals d)" "''venue''"]
      by (simp add: eventValidate_def Let_def image_Un)
  next
    case 8 then show ?thesis
      using requiredString_names [of "location (vals d)" "''location''"]
      by (simp add: eventValidate_def Let_def image_Un)
  next
    case 9 then show ?thesis
      using requiredString_names [of "mode (vals d)" "''mode''"]
      by (simp add: eventValidate_def Let_def image_Un)
  next
    case 10 then show ?thesis
      using requiredString_names [of "audience (vals d)" "''audience''"]
      by (simp add: eventValidate_def Let_def image_Un)
  next
    case 11 then show ?thesis
      using requiredString_names [of "organizer (vals d)" "''organizer''"]
      by (simp add: eventValidate_def Let_def image_Un)
  qed
qed

lemma eventSave_invalid:
  "eventValidate d \<noteq> [] \<Longrightarrow> eventSave h st d = (st, d, Some (ValidationError (eventValidate d)))"
  by (cases "eventValidate d") (simp_all add: eventSave_def)

lemma eventSave_valid:
  "eventValidate d = [] \<Longrightarrow>
   eventSave h st d =
     (case eventPreSave h d of (d', Some err) \<Rightarrow> (st, d', Some err) | (d', None) \<Rightarrow> eventWrite st d')"
  by (simp add: eventSave_def)

lemma build_slug_required:
  "(''slug'', ''Path `slug` is required.'') \<in> set (eventValidate (eventBuild attrs oid))"
  by (simp add: eventValidate_def Let_def eventBuild_def requiredString_def)

lemma talk_trims:
  "trim (js ''My Talk!'') = js ''My Talk!''" "trim (js ''A talk'') = js ''A talk''"
  "trim (js ''Overview'') = js ''Overview''" "trim (js ''/talk.png'') = js ''/talk.png''"
  "trim (js ''Hall 1'') = js ''Hall 1''" "trim (js ''Lagos'') = js ''Lagos''"
  "trim (js ''offline'') = js ''offline''" "trim (js ''Developers'') = js ''Developers''"
  "trim (js ''ACME'') = js ''ACME''"
  by (simp_all add: js_simps trim_def char_defs)

lemma js_not_Nil: "js (c # cs) \<noteq> []"
  by (simp add: js_simps)

lemma talk_offending: "offendingAttrs talkAttrs = []"
  by (simp add: offendingAttrs_def talkAttrs_def pathsWhere_def blank_def noItems_def talk_trims
      js_not_Nil)

lemma talk_build_validate:
  "eventValidate (eventBuild talkAttrs oid) = [(''slug'', ''Path `slug` is required.'')]"
  by (simp add: eventValidate_def eventBuild_def talkAttrs_def requiredString_def
      nonBlankString_def nonEmptyArray_def talk_trims js_not_Nil)

lemma noTag_offending: "offendingAttrs noTagAttrs = [''tags'']"
  by (simp add: offendingAttrs_def noTagAttrs_def talkAttrs_def pathsWhere_def blank_def noItems_def
      talk_trims js_not_Nil)

lemma noTag_build_validate:
  "eventValidate (eventBuild noTagAttrs oid) =
     [(''slug'', ''Path `slug` is required.''), (''tags'', ''Tags must contain at least one item'')]"
  by (simp add: eventValidate_def eventBuild_def noTagAttrs_def talkAttrs_def requiredString_def
      nonBlankString_def nonEmptyArray_def talk_trims js_not_Nil)

lemma slugStep_slug:
  "slug (vals (fst (slugStep h d))) =
     (if isModified ''title'' d \<and> title (vals d) \<noteq> None
      then map_option (slugify h) (title (vals d)) else slug (vals d))"
  by (simp add: slugStep_def split: option.splits)

lemma dateStep_slug: "slug (vals (fst (dateStep h d))) = slug (vals d)"
  by (simp add: dateStep_def split: option.splits sum.splits)

lemma timeStep_slug: "slug (vals (fst (timeStep h d))) = slug (vals d)"
  by (simp add: timeStep_def split: option.splits sum.splits)

lemma eventPreSave_slug:
  "slug (vals (fst (eventPreSave h d))) =
     (if isModified ''title'' d \<and> title (vals d) \<noteq> None
      then map_option (slugify h) (title (vals d)) else slug (vals d))"
proof -
  obtain d1 e1 where 1: "slugStep h d = (d1, e1)"
    by (cases "slugStep h d")
  obtain d2 e2 where 2: "dateStep h d1 = (d2, e2)"
    by (cases "dateStep h d1")
  have s1: "slug (vals d1) =
     (if isModified ''title'' d \<and> title (vals d) \<noteq> None
      then map_option (slugify h) (title (vals d)) else slug (vals d))"
    using slugStep_slug [of h d] 1 by simp
  have s2: "slug (vals d2) = slug (vals d1)"
    using dateStep_slug [of h d1] 2 by simp
  have "slug (vals (fst (eventPreSave h d))) = slug (vals d1)"
    using s2 timeStep_slug [of h d2]
    by (cases e1; cases e2) (simp_all add: eventPreSave_def 1 2)
  with s1 show ?thesis by simp
qed

lemma eventWrite_slug: "slug (vals (fst (snd (eventWrite st d)))) = slug (vals d)"
  by (simp add: eventWrite_def split: option.splits)

text \<open>The hook alone does what is meant: on every save that reaches it, the slug of the
  document is the slug of the title when the title is modified, and is untouched
  otherwise.\<close>

lemma eventSave_slug:
  "eventValidate d = [] \<Longrightarrow>
   slug (vals (fst (snd (eventSave h st d)))) =
     (if isModified ''title'' d then map_option (slugify h) (title (vals d)) else slug (vals d))"
proof -
  assume v: "eventValidate d = []"
  then have t: "title (vals d) \<noteq> None"
    by (auto simp: eventValidate_def Let_def nonBlankString_def split: option.splits)
  obtain d' e where p: "eventPreSave h d = (d', e)"
    by (cases "eventPreSave h d")
  have "slug (vals (fst (snd (eventSave h st d)))) = slug (vals d')"
    using eventWrite_slug [of st d'] by (cases e) (simp_all add: eventSave_valid [OF v] p)
  then show ?thesis
    using eventPreSave_slug [of h d] p t by simp
qed

lemma slug_talk: "slugify h (js ''My Talk!'') = js ''my-talk''"
  by (simp add: slugify_stages js_simps toLowerCase_def lowerAt_def upt_rec trim_def slugInput_def
      char_defs)

lemma talkDoc_validate: "eventValidate talkDoc = []"
  by (simp add: eventValidate_def talkDoc_def eventBuild_def talkAttrs_def requiredString_def
      nonBlankString_def nonEmptyArray_def talk_trims js_not_Nil)

text \<open>With a slug of the caller's the same attributes are saved, and the hook replaces
  that slug by the slug of the title.\<close>

lemma talkDoc_slug: "slug (vals (fst (snd (eventSave h st talkDoc)))) = Some (js ''my-talk'')"
proof -
  have "isModified ''title'' talkDoc" "title (vals talkDoc) = Some (js ''My Talk!'')"
    by (simp_all add: isModified_def talkDoc_def eventBuild_def talkAttrs_def givenPaths_def
        talk_trims)
  then show ?thesis
    by (simp add: eventSave_slug [OF talkDoc_validate] slug_talk)
qed

section \<open>Properties of dates\<close>

























section \<open>Properties of the temporal normalizer\<close>

lemma search_Bol: "0 < k \<Longrightarrow> search (Cat Bol r) k s = None"
proof (induction s arbitrary: k)
  case Nil
  then show ?case by (subst search.simps) simp
next
  case (Cons c cs)
  then show ?case by (subst search.simps) simp
qed

lemma exec_Bol:
  "exec (Cat Bol r) s = (case run r (0, s, Map.empty) of [] \<Rightarrow> None | (j, s', g) # _ \<Rightarrow> Some g)"
  unfolding exec_def
  by (subst search.simps) (simp add: search_Bol split: list.splits)

lemma hhmm24_shape:
  "exec hhmm24 t = map_option (\<lambda>(hh, mm). [1 \<mapsto> hh, 2 \<mapsto> mm]) (shape24 t)"
proof -
  consider "t = []" | a where "t = [a]" | a b where "t = [a, b]" | a b c where "t = [a, b, c]"
    | a b c d where "t = [a, b, c, d]" | a b c d e where "t = [a, b, c, d, e]"
    | a b c d e f r where "t = a # b # c # d # e # f # r"
    by (metis list.exhaust)
  then show ?thesis
  proof cases
    case 1 then show ?thesis by (simp add: hhmm24_def exec_Bol)
  next
    case 2 then show ?thesis by (simp add: hhmm24_def exec_Bol)
  next
    case 3 then show ?thesis by (simp add: hhmm24_def exec_Bol)
  next
    case 4 then show ?thesis by (simp add: hhmm24_def exec_Bol)
  next
    case 5 then show ?thesis
      by (simp add: hhmm24_def exec_Bol minuteDigits_def)
  next
    case 6 then show ?thesis
      by (simp add: hhmm24_def exec_Bol minuteDigits_def hour24Digits_def)
  next
    case 7 then show ?thesis
      by (simp add: hhmm24_def exec_Bol)
  qed
qed

text \<open>A greedy \<open>*\<close> before an expression that cannot start with a code unit of the class
  gives up nothing: the expression is tried after the whole run only.\<close>

lemma run_Star_then:
  assumes "\<And>i c cs g. p c \<Longrightarrow> run r (i, c # cs, g) = []"
  shows "run (Cat (Star p) r) (i, s, g) = run r (i + length (takeWhile p s), dropWhile p s, g)"
proof -
  have "concat (map (run r) (many p i s g)) = run r (i + length (takeWhile p s), dropWhile p s, g)"
    by (induction s arbitrary: i) (simp_all add: assms)
  then show ?thesis by simp
qed

lemma periodEnd_space: "isSpace c \<Longrightarrow> run periodEnd (i, c # cs, g) = []"
  by (auto simp: periodEnd_def char_defs)

lemma litI_a_p: "litI CHR ''a'' x \<Longrightarrow> \<not> litI CHR ''p'' x"
  by (auto simp: litI_def)

lemma periodEnd_run:
  "run periodEnd (i, s, g) =
     (case period s of None \<Rightarrow> [] | Some p \<Rightarrow> [(i + 2, [], g(3 \<mapsto> p))])"
proof -
  consider "s = []" | x where "s = [x]" | x y where "s = [x, y]" | x y z r where "s = x # y # z # r"
    by (metis list.exhaust)
  then show ?thesis
  proof cases
    case 1 then show ?thesis by (simp add: periodEnd_def period_def)
  next
    case 2 then show ?thesis by (simp add: periodEnd_def period_def)
  next
    case 3 then show ?thesis by (auto simp: periodEnd_def period_def dest: litI_a_p)
  next
    case 4 then show ?thesis by (simp add: periodEnd_def period_def)
  qed
qed

lemma ampm_parts: "ampm = Cat Bol (Cat hour12Regex afterHourRegex)"
  by (simp add: ampm_def hour12Regex_def afterHourRegex_def periodEnd_def)

lemma afterHour_run:
  "run afterHourRegex (i, s, g) =
     (case afterHour s of
        None \<Rightarrow> []
      | Some (mm, p) \<Rightarrow> [(i + 5 + length (takeWhile isSpace (drop 3 s)), [], g(2 \<mapsto> mm, 3 \<mapsto> p))])"
proof -
  have star: "\<And>i s g. run (Cat (Star isSpace) periodEnd) (i, s, g)
      = run periodEnd (i + length (takeWhile isSpace s), dropWhile isSpace s, g)"
    by (rule run_Star_then) (rule periodEnd_space)
  consider "s = []" | c where "s = [c]" | c m1 where "s = [c, m1]"
    | c m1 m2 r where "s = c # m1 # m2 # r"
    by (metis list.exhaust)
  then show ?thesis
  proof cases
    case 1 then show ?thesis by (simp add: afterHourRegex_def afterHour_def)
  next
    case 2 then show ?thesis by (simp add: afterHourRegex_def afterHour_def)
  next
    case 3 then show ?thesis by (simp add: afterHourRegex_def afterHour_def)
  next
    case 4
    then show ?thesis
      using star
      by (simp add: afterHourRegex_def afterHour_def minuteDigits_def periodEnd_run
          split: option.splits)
  qed
qed

lemma lit_facts:
  "lit CHR ''0'' a \<Longrightarrow> \<not> inRange CHR ''1'' CHR ''9'' a"
  "lit CHR ''0'' a \<Longrightarrow> \<not> lit CHR ''1'' a"
  "lit CHR '':'' a \<Longrightarrow> \<not> inRange CHR ''0'' CHR ''2'' a"
  "lit CHR '':'' a \<Longrightarrow> \<not> inRange CHR ''1'' CHR ''9'' a"
  by (simp_all add: lit_def inRange_def)

lemma afterHour_colon: "afterHour (b # r) = Some x \<Longrightarrow> lit CHR '':'' b"
  by (auto simp: afterHour_def split: list.splits if_splits)

lemma hour12_not_colon: "hour12Digits a b \<Longrightarrow> \<not> lit CHR '':'' b"
  using lit_facts(3,4) [of b] by (auto simp: hour12Digits_def)

lemma hour12_run:
  "run hour12Regex (0, a # b # r, Map.empty) =
     (if lit CHR ''1'' a \<and> inRange CHR ''0'' CHR ''2'' b then [(2, r, [1 \<mapsto> [a, b]])] else [])
     @ (if lit CHR ''0'' a \<and> inRange CHR ''1'' CHR ''9'' b then [(2, r, [1 \<mapsto> [a, b]])] else [])
     @ (if inRange CHR ''1'' CHR ''9'' a then [(1, b # r, [1 \<mapsto> [a]])] else [])"
  using lit_facts(1) [of a] by (auto simp: hour12Regex_def)

lemma ampm_shape:
  "exec ampm t = map_option (\<lambda>(hh, mm, p). [1 \<mapsto> hh, 2 \<mapsto> mm, 3 \<mapsto> p]) (shape12 t)"
proof -
  consider "t = []" | a where "t = [a]" | a b r where "t = a # b # r"
    by (metis list.exhaust)
  then show ?thesis
  proof cases
    case 1 then show ?thesis
      by (simp add: ampm_parts exec_Bol hour12Regex_def shape12_def)
  next
    case 2 then show ?thesis
      by (simp add: ampm_parts exec_Bol hour12Regex_def shape12_def afterHour_run afterHour_def)
  next
    case 3
    show ?thesis
    proof (cases "hour12Digits a b")
      case True
      then have nc: "afterHour (b # r) = None"
        using hour12_not_colon [of a b] afterHour_colon [of b r]
        by (cases "afterHour (b # r)") blast+
      show ?thesis
        using True nc
        by (auto simp: 3 ampm_parts exec_Bol hour12_run shape12_def afterHour_run hour12Digits_def
            split: option.splits)
    next
      case False
      then show ?thesis
        by (auto simp: 3 ampm_parts exec_Bol hour12_run shape12_def afterHour_run hour12Digits_def
            split: option.splits)
    qed
  qed
qed

lemma shape12_Some:
  assumes "shape12 t = Some (hh, mm, p)"
  shows "list_all isDigit hh \<and> hh \<noteq> [] \<and> (\<exists>s. period s = Some p)"
proof -
  have d: "\<And>a b. hour12Digits a b \<Longrightarrow> isDigit a \<and> isDigit b"
    by (auto simp: hour12Digits_def lit_def inRange_def isDigit_def)
  have e: "\<And>a. inRange CHR ''1'' CHR ''9'' a \<Longrightarrow> isDigit a"
    by (simp add: inRange_def isDigit_def)
  have f: "\<And>s mm p. afterHour s = Some (mm, p) \<Longrightarrow> \<exists>s. period s = Some p"
    by (auto simp: afterHour_def split: list.splits if_splits)
  obtain a b r where t: "t = a # b # r"
    using assms by (auto simp: shape12_def split: list.splits)
  show ?thesis
  proof (cases "hour12Digits a b")
    case True
    then show ?thesis
      using assms d [of a b] f [of r mm p] by (auto simp: shape12_def t)
  next
    case False
    then show ?thesis
      using assms e [of a] f [of "b # r" mm p] by (auto simp: shape12_def t split: if_splits)
  qed
qed

lemma digit_not_space: "isDigit c \<Longrightarrow> \<not> isSpace c \<and> c \<noteq> 45 \<and> c \<noteq> 43"
  by (auto simp: isDigit_def isSpace_def)

lemma parseInt10_digits:
  assumes "list_all isDigit s" "s \<noteq> []"
  shows "parseInt10 s = Some (int (readNat s))"
proof -
  obtain c cs where s: "s = c # cs"
    using assms(2) by (cases s) auto
  have c: "\<not> isSpace c" "c \<noteq> 45" "c \<noteq> 43"
    using assms(1) digit_not_space [of c] by (simp_all add: s)
  have t: "takeWhile isDigit s = s"
    using assms(1) by (simp add: takeWhile_eq_all_conv list_all_iff)
  have d: "dropWhile isSpace s = s"
    using c by (simp add: s)
  have "parseInt10 s = (if takeWhile isDigit s = [] then None else Some (int (readNat (takeWhile isDigit s))))"
    using c by (simp add: parseInt10_def Let_def d) (simp add: s)
  then show ?thesis
    using assms(2) by (simp add: t)
qed

lemma toLowerCase_two:
  "x < 128 \<Longrightarrow> y < 128 \<Longrightarrow>
   toLowerCase h [x, y] = [if isUpperAz x then x + 32 else x, if isUpperAz y then y + 32 else y]"
  by (simp add: toLowerCase_def lowerAt_def upt_rec)

lemma period_lower:
  assumes "period s = Some p"
  shows "toLowerCase h p = (if isPM p then js ''pm'' else js ''am'')"
proof -
  obtain x y where p: "p = [x, y]" and x: "litI CHR ''a'' x \<or> litI CHR ''p'' x"
    and y: "litI CHR ''m'' y"
    using assms by (auto simp: period_def split: list.splits if_splits)
  have y': "y = 109 \<or> y = 77"
    using y by (auto simp: litI_def)
  have x': "x = 97 \<or> x = 65 \<or> x = 112 \<or> x = 80"
    using x by (auto simp: litI_def)
  have l: "toLowerCase h [x, y] = [if isUpperAz x then x + 32 else x, if isUpperAz y then y + 32 else y]"
    using x' y' by (intro toLowerCase_two) auto
  show ?thesis
    unfolding p l using x' y'
    by (elim disjE) (simp_all add: isPM_def litI_def isUpperAz_def js_simps)
qed

lemma am_not_pm: "js ''pm'' \<noteq> js ''am''"
  by (simp add: js_simps)

lemma normalizeTime_refines: "normalizeTime h input = normalizeTimeSpec h input"
proof (cases "shape24 (trim input)")
  case (Some a)
  then show ?thesis
    by (cases a) (simp add: normalizeTime_def normalizeTimeSpec_def hhmm24_shape shown_def)
next
  case None
  note n24 = this
  show ?thesis
  proof (cases "shape12 (trim input)")
    case None
    then show ?thesis
      by (simp add: normalizeTime_def normalizeTimeSpec_def hhmm24_shape ampm_shape n24)
  next
    case (Some a)
    obtain hh mm p where a: "a = (hh, mm, p)"
      by (cases a)
    note s = shape12_Some [OF Some [unfolded a]]
    have i: "parseInt10 hh = Some (int (readNat hh))"
      using s by (intro parseInt10_digits) simp_all
    have l: "toLowerCase h p = (if isPM p then js ''pm'' else js ''am'')"
      using s period_lower by blast
    have k: "\<And>n. nat (int n + 12) = n + 12"
      by simp
    show ?thesis
      using am_not_pm
      by (simp add: normalizeTime_def normalizeTimeSpec_def hhmm24_shape ampm_shape n24 Some a
          shown_def i l to24_def showNumber_def Let_def k)
  qed
qed


section \<open>The normalizers on the examples\<close>












text \<open>An input that reaches the third branch with an offset of its own: the hour that
  comes back is the hour of the host's local time.\<close>

lemma iso_0530Z: "isoParse h (js ''1970-01-01T05:30Z'') = Some 19800000"
  by (simp add: js_simps parse_defs char_defs daysInMonth_def InLeapYear_def MakeDate_def MakeDay_def
      MakeTime_def DayFromYear_def daysBeforeMonth_def msPerDay_def)

lemma time_0530Z:
  "normalizeTime h (js ''05:30Z'') =
     Inr (pad 2 (getHours h 19800000) @ js '':'' @ pad 2 (getMinutes h 19800000))"
proof -
  have "normalizeTime h (js ''05:30Z'') =
     (case newDate h (js ''1970-01-01T05:30Z'') of
        None \<Rightarrow> Inl (Error ''Invalid time format'')
      | Some t \<Rightarrow> Inr (pad 2 (getHours h t) @ js '':'' @ pad 2 (getMinutes h t)))"
    by (simp add: js_simps normalizeTime_def trim_def char_defs regex_defs)
  then show ?thesis
    by (simp add: newDate_def iso_0530Z TimeClip_def)
qed

lemma time_0530Z_UTC: "normalizeTime hostUTC (js ''05:30Z'') = Inr (js ''05:30'')"
  unfolding time_0530Z
  by (simp add: hostUTC_def getHours_def getMinutes_def LocalTime_def HourFromTime_def
      MinFromTime_def pad_def padStart0_def showNat.simps js_simps)

lemma time_0530Z_WAT: "normalizeTime hostWAT (js ''05:30Z'') = Inr (js ''06:30'')"
  unfolding time_0530Z
  by (simp add: hostWAT_def getHours_def getMinutes_def LocalTime_def HourFromTime_def
      MinFromTime_def pad_def padStart0_def showNat.simps js_simps)

lemma time_bad: "normalizeTime hostUTC (js ''7:5'') = Inl (Error ''Invalid time format'')"
proof -
  have "normalizeTime hostUTC (js ''7:5'') =
     (case newDate hostUTC (js ''1970-01-01T7:5'') of
        None \<Rightarrow> Inl (Error ''Invalid time format'')
      | Some t \<Rightarrow> Inr (pad 2 (getHours hostUTC t) @ js '':'' @ pad 2 (getMinutes hostUTC t)))"
    by (simp add: js_simps normalizeTime_def trim_def char_defs regex_defs)
  moreover have "isoParse hostUTC (js ''1970-01-01T7:5'') = None"
    by (simp add: js_simps parse_defs char_defs daysInMonth_def InLeapYear_def)
  ultimately show ?thesis
    by (simp add: newDate_def hostUTC_def)
qed



lemma host_cong:
  assumes "localTZA h1 = localTZA h2" "dateFallback h1 = dateFallback h2"
  shows "newDate h1 s = newDate h2 s" "getHours h1 t = getHours h2 t"
    "getMinutes h1 t = getMinutes h2 t"
proof -
  have u: "UTC h1 = UTC h2"
    using assms by (simp add: UTC_def fun_eq_iff)
  have i: "isoParse h1 s = isoParse h2 s"
    unfolding isoParse_def u ..
  show "newDate h1 s = newDate h2 s"
    unfolding newDate_def i assms(2) ..
  show "getHours h1 t = getHours h2 t" "getMinutes h1 t = getMinutes h2 t"
    using assms by (simp_all add: getHours_def getMinutes_def LocalTime_def)
qed

lemma normalizeTimeSpec_cong:
  assumes "localTZA h1 = localTZA h2" "dateFallback h1 = dateFallback h2"
  shows "normalizeTimeSpec h1 s = normalizeTimeSpec h2 s"
  unfolding normalizeTimeSpec_def host_cong [OF assms] ..

lemma normalizeTimeSpec_shaped:
  "shape24 (trim s) \<noteq> None \<or> shape12 (trim s) \<noteq> None \<Longrightarrow>
   normalizeTimeSpec h1 s = normalizeTimeSpec h2 s"
  by (auto simp: normalizeTimeSpec_def split: option.splits)

lemma normalizeTimeSpec_error:
  "normalizeTimeSpec h s = Inl e \<longleftrightarrow>
     e = Error ''Invalid time format'' \<and> shape24 (trim s) = None \<and> shape12 (trim s) = None
     \<and> newDate h (js ''1970-01-01T'' @ trim s) = None"
  by (auto simp: normalizeTimeSpec_def split: option.splits)

lemma normalizeDate_error:
  "normalizeDate h s = Inl e \<longleftrightarrow> e = Error ''Invalid date format'' \<and> newDate h s = None"
  by (auto simp: normalizeDate_def split: option.splits)

section \<open>The claims\<close>

text \<open>
  C6: for every input string \<open>slugify\<close> lower-cases, trims, strips the code units outside
  \<open>[a-z0-9\s-]\<close>, turns every run of whitespace into one hyphen and every run of hyphens
  into one hyphen; its result has only code units of \<open>[a-z0-9-]\<close> and no two hyphens in a
  row; \<open>"Hello   World!!"\<close> becomes \<open>"hello-world"\<close>; it is total, and the result may be
  empty.
\<close>

theorem slugify_contract:
  "slugify h input =
     collapseRuns isHyphen (collapseRuns isSpace (filter slugInput (trim (toLowerCase h input))))
   \<and> list_all slugChar (slugify h input)
   \<and> \<not> hasDoubleHyphen (slugify h input)
   \<and> slugify h (js ''Hello   World!!'') = js ''hello-world''
   \<and> slugify h (js ''!!'') = []"
proof -
  have ex: "toLowerCase h (js ''Hello   World!!'') = js ''hello   world!!''"
    by (simp add: js_simps toLowerCase_def lowerAt_def isUpperAz_def upt_rec)
  have ex': "toLowerCase h (js ''!!'') = js ''!!''"
    by (simp add: js_simps toLowerCase_def lowerAt_def isUpperAz_def upt_rec)
  have 1: "slugify h (js ''Hello   World!!'') = js ''hello-world''"
    unfolding slugify_stages ex
    by (simp add: js_simps trim_def isSpace_def slugInput_def isLowerAz_def isDigit_def isHyphen_def)
  have 2: "slugify h (js ''!!'') = []"
    unfolding slugify_stages ex'
    by (simp add: js_simps trim_def isSpace_def slugInput_def isLowerAz_def isDigit_def isHyphen_def)
  show ?thesis
    using slugify_stages [of h input] slugify_chars [of h input] slugify_no_double [of h input] 1 2
    by blast
qed

text \<open>
  C10: \<open>slugify\<close> is idempotent: a slug is left unchanged by a second normalization.
\<close>

theorem slugify_idempotent: "slugify h (slugify h s) = slugify h s"
  by (rule slug_fixed [OF slugify_chars slugify_no_double])

text \<open>
  C7: the setters of \<open>email\<close> lower-case and trim the value when a booking is built and
  when the path is assigned; a save of a booking whose email fails \<open>EMAIL_REGEX\<close> is
  rejected with a \<open>ValidationError\<close> that names \<open>email\<close> and leaves the store as it was; a
  save that succeeds and writes the email stores the value the setters produced, which
  passes the pattern.
\<close>

theorem booking_email:
  "email (vals (bookingBuild h attrs oid)) = map_option (\<lambda>v. trim (toLowerCase h v)) (email attrs)
   \<and> email (vals (setEmail h raw d0)) = Some (trim (toLowerCase h raw))
   \<and> (email (vals d) = Some e \<and> \<not> test EMAIL_REGEX e \<longrightarrow>
        bookingSave st d = (st, d, Some (ValidationError (bookingValidate d)))
        \<and> ''email'' \<in> fst ` set (bookingValidate d))
   \<and> (bookingSave st d = (st', d', None) \<and> (isNew d \<or> isModified ''email'' d) \<longrightarrow>
        (\<exists>v. email (vals d) = Some v \<and> test EMAIL_REGEX v
           \<and> map_option email (findById (bookings st') (docId d)) = Some (Some v)))"
proof (intro conjI impI)
  show "email (vals (bookingBuild h attrs oid)) = map_option (\<lambda>v. trim (toLowerCase h v)) (email attrs)"
    by (cases "email attrs") (simp_all add: bookingBuild_def emailSetter_def)
  show "email (vals (setEmail h raw d0)) = Some (trim (toLowerCase h raw))"
    by (simp add: setEmail_def emailSetter_def)
next
  assume a: "email (vals d) = Some e \<and> \<not> test EMAIL_REGEX e"
  then show m: "''email'' \<in> fst ` set (bookingValidate d)"
    by (simp add: bookingValidate_email)
  then have "bookingValidate d \<noteq> []"
    by auto
  then show "bookingSave st d = (st, d, Some (ValidationError (bookingValidate d)))"
    by (rule bookingSave_invalid)
next
  assume a: "bookingSave st d = (st', d', None) \<and> (isNew d \<or> isModified ''email'' d)"
  have v: "bookingValidate d = []"
    using a bookingSave_invalid [of d st] by (cases "bookingValidate d = []") auto
  then obtain k v where e: "email (vals d) = Some v" "test EMAIL_REGEX v"
    using bookingValidate_ok by blast
  have "bookingWrite st d = (st', d', None)"
    using a v by (simp add: bookingSave_valid split: if_splits)
  then have "map_option email (findById (bookings st') (docId d)) = Some (email (vals d))"
    using a by (intro bookingWrite_stored) auto
  with e show "\<exists>v. email (vals d) = Some v \<and> test EMAIL_REGEX v
      \<and> map_option email (findById (bookings st') (docId d)) = Some (Some v)"
    by simp
qed

theorem booking_email_witness:
  "email (vals (bookingBuild hostUTC adaAttrs 2)) = Some (js ''ada@example.com'')
   \<and> \<not> test EMAIL_REGEX (js ''not-an-email'')
   \<and> bookingSave eventStore (bookingBuild hostUTC badAttrs 3)
       = (eventStore, bookingBuild hostUTC badAttrs 3,
          Some (ValidationError [(''email'', ''Invalid email format'')]))
   \<and> isNew (bookingBuild hostUTC adaAttrs 2)
   \<and> snd (snd (bookingSave eventStore (bookingBuild hostUTC adaAttrs 2))) = None
   \<and> map_option email
         (findById (bookings (fst (bookingSave eventStore (bookingBuild hostUTC adaAttrs 2)))) 2)
       = Some (Some (js ''ada@example.com''))"
proof -
  let ?ada = "bookingBuild hostUTC adaAttrs 2" and ?bad = "bookingBuild hostUTC badAttrs 3"
  let ?st' = "eventStore\<lparr>bookings := [(2, vals ?ada)]\<rparr>"
  let ?d' = "?ada\<lparr>isNew := False, modifiedPaths := {}\<rparr>"
  have ex: "eventExists eventStore (eventId (vals ?ada))"
    by (simp add: ada_doc eventExists_def eventStore_def findById_def)
  have w: "bookingWrite eventStore ?ada = (?st', ?d', None)"
    by (simp add: ada_doc bookingWrite_def eventStore_def findById_def insertOne_def)
  have s: "bookingSave eventStore ?ada = (?st', ?d', None)"
    using ex w by (simp add: bookingSave_valid [OF ada_validate])
  have n: "isNew ?ada"
    by (simp add: ada_doc)
  have 1: "email (vals ?ada) = Some (js ''ada@example.com'')"
    using booking_email [of hostUTC adaAttrs 2, THEN conjunct1]
    by (simp add: adaAttrs_def ada_email [unfolded emailSetter_def])
  have b: "email (vals ?bad) = Some (js ''not-an-email'') \<and> \<not> test EMAIL_REGEX (js ''not-an-email'')"
    using bad_invalid by (simp add: bad_doc)
  have 3: "bookingSave eventStore ?bad = (eventStore, ?bad, Some (ValidationError (bookingValidate ?bad)))"
    using booking_email [where d = ?bad and e = "js ''not-an-email''" and st = eventStore,
        THEN conjunct2, THEN conjunct2, THEN conjunct1, THEN mp, OF b]
    by (rule conjunct1)
  have "bookingSave eventStore ?ada = (?st', ?d', None) \<and> (isNew ?ada \<or> isModified ''email'' ?ada)"
    using s n by simp
  from booking_email [where d = ?ada and st = eventStore and st' = ?st' and d' = ?d',
      THEN conjunct2, THEN conjunct2, THEN conjunct2, THEN mp, OF this]
  have 4: "map_option email (findById (bookings ?st') 2) = Some (Some (js ''ada@example.com''))"
    using 1 by (auto simp: ada_doc)
  show ?thesis
    using 1 b 3 n 4 by (simp add: s bad_validate)
qed

text \<open>
  C1, as amended: when no event with the booking's \<open>eventId\<close> is in the store, the save is
  rejected and the store is left as it was; the error is the hook's \<open>Error\<close> when the
  booking passes schema validation, and the \<open>ValidationError\<close> of the validators, which
  run before the hook, when it does not.  The check is a step of \<open>bookingSave\<close> itself.
\<close>

theorem booking_missing_event:
  "\<not> eventExists st (eventId (vals d)) \<Longrightarrow>
   bookingSave st d =
     (st, d, Some (if bookingValidate d = [] then Error ''Referenced event does not exist''
                   else ValidationError (bookingValidate d)))"
  by (cases "bookingValidate d = []") (simp_all add: bookingSave_valid bookingSave_invalid)

theorem booking_missing_event_witness:
  "\<not> eventExists emptyStore (eventId (vals (bookingBuild hostUTC adaAttrs 2)))
   \<and> bookingValidate (bookingBuild hostUTC adaAttrs 2) = []
   \<and> bookingSave emptyStore (bookingBuild hostUTC adaAttrs 2)
       = (emptyStore, bookingBuild hostUTC adaAttrs 2,
          Some (Error ''Referenced event does not exist''))"
proof -
  have e: "\<not> eventExists emptyStore (eventId (vals (bookingBuild hostUTC adaAttrs 2)))"
    by (simp add: ada_doc eventExists_def emptyStore_def findById_def)
  show ?thesis
    using booking_missing_event [OF e] e by (simp add: ada_validate)
qed

theorem booking_missing_event_counterexample:
  "\<not> eventExists eventStore (eventId (vals (bookingBuild hostUTC badAttrs 3)))
   \<and> bookingSave eventStore (bookingBuild hostUTC badAttrs 3)
       = (eventStore, bookingBuild hostUTC badAttrs 3,
          Some (ValidationError [(''email'', ''Invalid email format'')]))
   \<and> snd (snd (bookingSave eventStore (bookingBuild hostUTC badAttrs 3)))
       \<noteq> Some (Error ''Referenced event does not exist'')"
proof -
  have e: "\<not> eventExists eventStore (eventId (vals (bookingBuild hostUTC badAttrs 3)))"
    by (simp add: bad_doc eventExists_def eventStore_def findById_def)
  have "bookingValidate (bookingBuild hostUTC badAttrs 3) \<noteq> []"
    by (simp add: bad_validate)
  then show ?thesis
    using e by (simp add: bookingSave_invalid bad_validate)
qed

text \<open>
  C9, as amended: the existence check is not a matter of creation: it is a step of every
  save that passes schema validation, of a stored booking as much as of a new one.  A save
  is rejected with the hook's error exactly when the booking passes validation and no event
  with its \<open>eventId\<close> is in the store; a save that fails validation is rejected before the
  check.
\<close>

theorem booking_check_every_save:
  "(snd (snd (bookingSave st d)) = Some (Error ''Referenced event does not exist''))
     = (bookingValidate d = [] \<and> \<not> eventExists st (eventId (vals d)))"
proof (cases "bookingValidate d = []")
  case True
  then show ?thesis
    by (auto simp: bookingSave_valid bookingWrite_def split: option.splits)
next
  case False
  then show ?thesis
    by (simp add: bookingSave_invalid)
qed

theorem booking_check_every_save_witness:
  "bookingValidate orphanDoc = []
   \<and> \<not> isNew orphanDoc
   \<and> \<not> eventExists orphanStore (eventId (vals orphanDoc))
   \<and> snd (snd (bookingSave orphanStore orphanDoc)) = Some (Error ''Referenced event does not exist'')"
proof -
  have e: "\<not> eventExists orphanStore (eventId (vals orphanDoc))"
    by (simp add: orphanDoc_def orphanStore_def eventExists_def findById_def)
  have n: "\<not> isNew orphanDoc"
    by (simp add: orphanDoc_def)
  show ?thesis
    using booking_check_every_save [of orphanStore orphanDoc] e n orphan_validate
    by simp
qed

theorem booking_check_on_update_counterexample:
  "\<not> isNew orphanDoc
   \<and> findById (bookings orphanStore) (docId orphanDoc) = Some (vals orphanDoc)
   \<and> bookingSave orphanStore orphanDoc
       = (orphanStore, orphanDoc, Some (Error ''Referenced event does not exist''))"
proof -
  have e: "\<not> eventExists orphanStore (eventId (vals orphanDoc))"
    by (simp add: orphanDoc_def orphanStore_def eventExists_def findById_def)
  have "findById (bookings orphanStore) (docId orphanDoc) = Some (vals orphanDoc)"
    by (simp add: orphanDoc_def orphanStore_def findById_def)
  then show ?thesis
    using e by (simp add: bookingSave_valid [OF orphan_validate]) (simp add: orphanDoc_def)
qed

text \<open>
  C4: the paths that break a static constraint (title or description blank, agenda or tags
  without an element, one of overview, image, venue, location, mode, audience and organizer
  missing or empty after trim) are all named by the validation errors of the document, and a
  save of a document with such a path is rejected with the \<open>ValidationError\<close> and leaves the
  store as it was; the setters make the offending paths of a built document those of its
  attributes; in particular an empty \<open>tags\<close> has the save of the built document rejected
  with a \<open>ValidationError\<close> that names \<open>tags\<close>.
\<close>

theorem event_validation:
  "set (offending d) \<subseteq> fst ` set (eventValidate d)
   \<and> (offending d \<noteq> [] \<longrightarrow> eventSave h st d = (st, d, Some (ValidationError (eventValidate d))))
   \<and> offending (eventBuild attrs oid) = offendingAttrs attrs
   \<and> (tags attrs = Some [] \<longrightarrow>
        ''tags'' \<in> fst ` set (eventValidate (eventBuild attrs oid))
        \<and> eventSave h st (eventBuild attrs oid)
            = (st, eventBuild attrs oid, Some (ValidationError (eventValidate (eventBuild attrs oid)))))"
proof (intro conjI impI)
  show n: "\<And>d. set (offending d) \<subseteq> fst ` set (eventValidate d)"
    by (rule offending_named)
  show "offending (eventBuild attrs oid) = offendingAttrs attrs"
    by (rule offending_build)
  show "eventSave h st d = (st, d, Some (ValidationError (eventValidate d)))" if "offending d \<noteq> []"
  proof -
    have "set (offending d) \<noteq> {}"
      using that by simp
    then have "eventValidate d \<noteq> []"
      using n [of d] by auto
    then show ?thesis
      by (rule eventSave_invalid)
  qed
  assume t: "tags attrs = Some []"
  then have "''tags'' \<in> set (offending (eventBuild attrs oid))"
    by (simp add: offending_build offendingAttrs_def pathsWhere_mem noItems_def)
  then show m: "''tags'' \<in> fst ` set (eventValidate (eventBuild attrs oid))"
    using n by blast
  then have "eventValidate (eventBuild attrs oid) \<noteq> []"
    by auto
  then show "eventSave h st (eventBuild attrs oid)
      = (st, eventBuild attrs oid, Some (ValidationError (eventValidate (eventBuild attrs oid))))"
    by (rule eventSave_invalid)
qed

theorem event_validation_witness:
  "tags noTagAttrs = Some []
   \<and> offending (eventBuild noTagAttrs 1) = [''tags'']
   \<and> eventSave hostUTC emptyStore (eventBuild noTagAttrs 1)
       = (emptyStore, eventBuild noTagAttrs 1,
          Some (ValidationError
            [(''slug'', ''Path `slug` is required.''),
             (''tags'', ''Tags must contain at least one item'')]))"
proof -
  have t: "tags noTagAttrs = Some []"
    by (simp add: noTagAttrs_def)
  note T = event_validation [of "eventBuild noTagAttrs 1" hostUTC emptyStore noTagAttrs 1]
  have o: "offending (eventBuild noTagAttrs 1) = [''tags'']"
    using T [THEN conjunct2, THEN conjunct2, THEN conjunct1] by (simp add: noTag_offending)
  have "eventSave hostUTC emptyStore (eventBuild noTagAttrs 1)
      = (emptyStore, eventBuild noTagAttrs 1,
         Some (ValidationError (eventValidate (eventBuild noTagAttrs 1))))"
    using T [THEN conjunct2, THEN conjunct1] o by simp
  then show ?thesis
    using t o by (simp add: noTag_build_validate)
qed

text \<open>
  C5, at the input where the code departs from it: the event built from attributes that
  break no constraint, with the title \<open>"My Talk!"\<close>.  \<open>EventAttrs\<close> has no slug, the schema
  requires one, and validation runs before the hook that would derive it: the save is
  rejected, the document keeps no slug, and the store is left as it was.
\<close>

theorem event_create_rejected:
  "offendingAttrs talkAttrs = []
   \<and> title (vals (eventBuild talkAttrs oid)) = Some (js ''My Talk!'')
   \<and> isModified ''title'' (eventBuild talkAttrs oid)
   \<and> eventSave h st (eventBuild talkAttrs oid)
       = (st, eventBuild talkAttrs oid,
          Some (ValidationError [(''slug'', ''Path `slug` is required.'')]))
   \<and> slug (vals (eventBuild talkAttrs oid)) = None"
proof -
  have "eventValidate (eventBuild talkAttrs oid) \<noteq> []"
    by (simp add: talk_build_validate)
  then have "eventSave h st (eventBuild talkAttrs oid)
      = (st, eventBuild talkAttrs oid, Some (ValidationError (eventValidate (eventBuild talkAttrs oid))))"
    by (rule eventSave_invalid)
  then show ?thesis
    by (simp add: talk_build_validate talk_offending)
      (simp add: eventBuild_def talkAttrs_def talk_trims isModified_def givenPaths_def)
qed





text \<open>
  C8, as amended: the two normalizers are functions of the input and of two facts of the
  host, its local time zone and what its date parser makes of a string outside the
  ECMAScript format, and of nothing else: hosts that agree on these give the same result on
  every input; on an input of one of the first two shapes \<open>normalizeTime\<close> gives the same
  result on every host; and each fails exactly when none of its branches parses the input,
  with its own error, so that no input gets a value it did not parse to.
\<close>

theorem normalizers_deterministic:
  "(localTZA h1 = localTZA h2 \<and> dateFallback h1 = dateFallback h2 \<longrightarrow>
      normalizeTime h1 s = normalizeTime h2 s \<and> normalizeDate h1 s = normalizeDate h2 s)
   \<and> (shape24 (trim s) \<noteq> None \<or> shape12 (trim s) \<noteq> None \<longrightarrow>
        normalizeTime h1 s = normalizeTime h2 s)
   \<and> (normalizeTime h s = Inl e) =
        (e = Error ''Invalid time format'' \<and> shape24 (trim s) = None \<and> shape12 (trim s) = None
         \<and> newDate h (js ''1970-01-01T'' @ trim s) = None)
   \<and> (normalizeDate h s = Inl e) = (e = Error ''Invalid date format'' \<and> newDate h s = None)"
proof (intro conjI impI)
  assume a: "localTZA h1 = localTZA h2 \<and> dateFallback h1 = dateFallback h2"
  then have l: "localTZA h1 = localTZA h2" and f: "dateFallback h1 = dateFallback h2"
    by simp_all
  show "normalizeTime h1 s = normalizeTime h2 s"
    unfolding normalizeTime_refines using l f by (rule normalizeTimeSpec_cong)
  show "normalizeDate h1 s = normalizeDate h2 s"
    unfolding normalizeDate_def host_cong(1) [OF l f] ..
next
  assume "shape24 (trim s) \<noteq> None \<or> shape12 (trim s) \<noteq> None"
  then show "normalizeTime h1 s = normalizeTime h2 s"
    unfolding normalizeTime_refines by (rule normalizeTimeSpec_shaped)
next
  show "(normalizeTime h s = Inl e) =
        (e = Error ''Invalid time format'' \<and> shape24 (trim s) = None \<and> shape12 (trim s) = None
         \<and> newDate h (js ''1970-01-01T'' @ trim s) = None)"
    unfolding normalizeTime_refines by (rule normalizeTimeSpec_error)
  show "(normalizeDate h s = Inl e) = (e = Error ''Invalid date format'' \<and> newDate h s = None)"
    by (rule normalizeDate_error)
qed

theorem normalizers_deterministic_witness:
  "shape12 (trim (js ''9:00 AM'')) \<noteq> None
   \<and> normalizeTime hostUTC (js ''9:00 AM'') = normalizeTime hostWAT (js ''9:00 AM'')
   \<and> normalizeTime hostUTC (js ''7:5'') = Inl (Error ''Invalid time format'')
   \<and> shape24 (trim (js ''7:5'')) = None
   \<and> shape12 (trim (js ''7:5'')) = None
   \<and> newDate hostUTC (js ''1970-01-01T'' @ trim (js ''7:5'')) = None"
proof -
  have s: "shape12 (trim (js ''9:00 AM'')) \<noteq> None"
    by (simp add: js_simps trim_def shape12_def hour12Digits_def afterHour_def minuteDigits_def
        period_def char_defs)
  have "normalizeTime hostUTC (js ''9:00 AM'') = normalizeTime hostWAT (js ''9:00 AM'')"
    using normalizers_deterministic [of hostUTC hostWAT "js ''9:00 AM''"] s by blast
  moreover have "shape24 (trim (js ''7:5'')) = None \<and> shape12 (trim (js ''7:5'')) = None
      \<and> newDate hostUTC (js ''1970-01-01T'' @ trim (js ''7:5'')) = None"
    using normalizers_deterministic [of hostUTC hostWAT "js ''7:5''" hostUTC
        "Error ''Invalid time format''"] time_bad
    by simp
  ultimately show ?thesis
    using s time_bad by simp
qed

theorem normalizers_environment_counterexample:
  "normalizeTime hostUTC (js ''05:30Z'') = Inr (js ''05:30'')
   \<and> normalizeTime hostWAT (js ''05:30Z'') = Inr (js ''06:30'')
   \<and> normalizeTime hostUTC (js ''05:30Z'') \<noteq> normalizeTime hostWAT (js ''05:30Z'')"
  unfolding time_0530Z_UTC time_0530Z_WAT by (simp add: js_simps)

end
